theory Spec2Isabelle
  imports Complex_Main "HOL-Library.Multiset"
begin

section \<open>Conventions of the embedding\<close>

text \<open>
  The development follows two headers of the Spectra library:
  \<^verbatim>\<open>GenEigsBase.h\<close> (the helper class \<^verbatim>\<open>RestartArnoldi\<close> and the solver base class
  \<^verbatim>\<open>GenEigsBase\<close>) and \<^verbatim>\<open>LinAlg/UpperHessenbergEigen.h\<close> (the eigen solver for upper
  Hessenberg matrices, in its real and its complex specialisation).

  \<^item> \<^verbatim>\<open>Eigen::Index\<close> is a signed integer; it is modelled as \<open>int\<close>. All values of that
    type below are matrix dimensions, positions and iteration counts.
  \<^item> The scalar types (\<^verbatim>\<open>double\<close>, \<^verbatim>\<open>std::complex<double>\<close>, ...) are modelled by the
    mathematical \<open>real\<close> and \<open>complex\<close> numbers: comparisons and the control flow that
    depends on them are those of the source, rounding is not modelled.
  \<^item> A C++ exception is a value \<open>Inl e\<close> of the result type \<open>error + 'a\<close>.
  \<^item> A dense vector is a list. Reading a coefficient outside of the vector is what
    Eigen's \<^verbatim>\<open>operator[]\<close> forbids by its index assertion; the model makes it the
    result \<open>Inl IndexOutOfRange\<close>, so that every such read is visible.
  \<^item> Classes and functions of the library that are not part of the two headers (the
    Arnoldi factorisation, the shifted QR decompositions, the Schur decompositions, the
    sorting helper, the type traits) are parameters of the definitions that call them.
\<close>

datatype error =
    InvalidArgument     \<comment> \<open>\<^verbatim>\<open>std::invalid_argument\<close>\<close>
  | LogicError          \<comment> \<open>\<^verbatim>\<open>std::logic_error\<close>\<close>
  | RuntimeError        \<comment> \<open>\<^verbatim>\<open>std::runtime_error\<close>\<close>
  | IndexOutOfRange     \<comment> \<open>a coefficient read or a block outside of a vector\<close>
  | EmptyReduction      \<comment> \<open>\<^verbatim>\<open>maxCoeff\<close> of a matrix without coefficients\<close>

type_synonym Index = int

text \<open>\<^verbatim>\<open>v[i]\<close> for an Eigen vector \<open>v\<close> and an \<^verbatim>\<open>Index\<close> \<open>i\<close>.\<close>

definition coeff :: "'a list \<Rightarrow> Index \<Rightarrow> error + 'a" where
  "coeff v i = (if 0 \<le> i \<and> i < int (length v) then Inr (v ! nat i) else Inl IndexOutOfRange)"

text \<open>\<^verbatim>\<open>v[i] = x\<close> for an Eigen vector \<open>v\<close>.\<close>

definition set_coeff :: "'a list \<Rightarrow> Index \<Rightarrow> 'a \<Rightarrow> error + 'a list" where
  "set_coeff v i x =
     (if 0 \<le> i \<and> i < int (length v) then Inr (v[nat i := x]) else Inl IndexOutOfRange)"

text \<open>Sequencing of two computations that may throw.\<close>

definition bindE :: "error + 'a \<Rightarrow> ('a \<Rightarrow> error + 'b) \<Rightarrow> error + 'b" where
  "bindE m f = (case m of Inl e \<Rightarrow> Inl e | Inr x \<Rightarrow> f x)"

text \<open>
  Integer division of C++ truncates towards zero, the \<open>div\<close> of HOL rounds down.
\<close>

definition cdiv :: "Index \<Rightarrow> Index \<Rightarrow> Index" where
  "cdiv a b = sgn a * sgn b * (\<bar>a\<bar> div \<bar>b\<bar>)"

section \<open>The enumerations\<close>

text \<open>
  Modelled from the spec: the headers \<^verbatim>\<open>Util/CompInfo.h\<close> and \<^verbatim>\<open>Util/SelectionRule.h\<close>
  are not among the sources. The specification names three states of a computation
  (successful, not converged, not computed) and six selection rules.
\<close>

datatype CompInfo = Successful | NotComputed | NotConverging

datatype SortRule =
  LargestMagn | LargestReal | LargestImag | SmallestMagn | SmallestReal | SmallestImag

section \<open>Restarting the Arnoldi factorisation: \<^verbatim>\<open>RestartArnoldi\<close>\<close>

text \<open>
  The two exact tests of the class, and \<^verbatim>\<open>std::norm\<close>, the squared magnitude of a
  complex number.
\<close>

definition is_complex :: "complex \<Rightarrow> bool" where
  "is_complex v = (Im v \<noteq> 0)"

definition is_conj :: "complex \<Rightarrow> complex \<Rightarrow> bool" where
  "is_conj v1 v2 = (v1 = cnj v2)"

definition std_norm :: "complex \<Rightarrow> real" where
  "std_norm v = Re v * Re v + Im v * Im v"

text \<open>
  The shifted QR decompositions (\<^verbatim>\<open>DoubleShiftQR\<close>, \<^verbatim>\<open>UpperHessenbergQR\<close>) and the
  factorisation they act on are not part of the header. One QR step of \<^verbatim>\<open>run\<close> is the
  three calls
  \<^verbatim>\<open>decomp.compute(fac.matrix_H(), shift...); decomp.apply_YQ(Q); fac.compress_H(decomp);\<close>
  which change the factorisation \<open>fac :: 'f\<close> and the matrix \<open>Q :: 'q\<close>. There is one
  such step for every kind of decomposition:
  \<^item> \<open>double_shift s t\<close> with \<^verbatim>\<open>DoubleShiftQR<Scalar>\<close>,
  \<^item> \<open>real_shift mu\<close> with \<^verbatim>\<open>UpperHessenbergQR<Scalar>\<close> for a real \<^verbatim>\<open>Scalar\<close>,
  \<^item> \<open>complex_shift mu\<close> with \<^verbatim>\<open>UpperHessenbergQR<std::complex<RealScalar>>\<close>.
\<close>

record ('f, 'q) ShiftQR =
  double_shift :: "real \<Rightarrow> real \<Rightarrow> 'f \<times> 'q \<Rightarrow> 'f \<times> 'q"
  real_shift :: "real \<Rightarrow> 'f \<times> 'q \<Rightarrow> 'f \<times> 'q"
  complex_shift :: "complex \<Rightarrow> 'f \<times> 'q \<Rightarrow> 'f \<times> 'q"

text \<open>
  The loop of \<^verbatim>\<open>RestartArnoldi<Scalar, ArnoldiFac>::run\<close> for a real \<^verbatim>\<open>Scalar\<close>, from
  the position \<open>i\<close> on. The operator \<^verbatim>\<open>&&\<close> evaluates its second argument, which reads
  \<^verbatim>\<open>ritz_val[i + 1]\<close>, only when the first one holds.
\<close>

function run_real_loop ::
  "('f, 'q, 'z) ShiftQR_scheme \<Rightarrow> complex list \<Rightarrow> Index \<Rightarrow> 'f \<times> 'q \<Rightarrow> error + 'f \<times> 'q" where
  "run_real_loop E ritz_val i st =
     (if i < int (length ritz_val) then
        (case coeff ritz_val i of
           Inl e \<Rightarrow> Inl e
         | Inr v \<Rightarrow>
            if is_complex v then
              (case coeff ritz_val (i + 1) of
                 Inl e \<Rightarrow> Inl e
               | Inr v' \<Rightarrow>
                  if is_conj v v'
                  then run_real_loop E ritz_val (i + 1 + 1) (double_shift E (2 * Re v) (std_norm v) st)
                  else run_real_loop E ritz_val (i + 1) (real_shift E (Re v) st))
            else run_real_loop E ritz_val (i + 1) (real_shift E (Re v) st))
      else Inr st)"
  by pat_completeness auto
termination
  by (relation "measure (\<lambda>(E, ritz_val, i, st). nat (int (length ritz_val) - i))") auto

declare run_real_loop.simps [simp del]

definition run_real ::
  "('f, 'q, 'z) ShiftQR_scheme \<Rightarrow> complex list \<Rightarrow> Index \<Rightarrow> 'f \<Rightarrow> 'q \<Rightarrow> error + 'f \<times> 'q" where
  "run_real E ritz_val k fac Q = run_real_loop E ritz_val k (fac, Q)"

text \<open>The specialisation of \<^verbatim>\<open>run\<close> for a complex \<^verbatim>\<open>Scalar\<close>.\<close>

function run_complex_loop ::
  "('f, 'q, 'z) ShiftQR_scheme \<Rightarrow> complex list \<Rightarrow> Index \<Rightarrow> 'f \<times> 'q \<Rightarrow> error + 'f \<times> 'q" where
  "run_complex_loop E ritz_val i st =
     (if i < int (length ritz_val) then
        (case coeff ritz_val i of
           Inl e \<Rightarrow> Inl e
         | Inr v \<Rightarrow> run_complex_loop E ritz_val (i + 1) (complex_shift E v st))
      else Inr st)"
  by pat_completeness auto
termination
  by (relation "measure (\<lambda>(E, ritz_val, i, st). nat (int (length ritz_val) - i))") auto

declare run_complex_loop.simps [simp del]

definition run_complex ::
  "('f, 'q, 'z) ShiftQR_scheme \<Rightarrow> complex list \<Rightarrow> Index \<Rightarrow> 'f \<Rightarrow> 'q \<Rightarrow> error + 'f \<times> 'q" where
  "run_complex E ritz_val k fac Q = run_complex_loop E ritz_val k (fac, Q)"

subsection \<open>The restart as the specification describes it\<close>

text \<open>
  The specification describes the restart as a sequence of QR steps chosen from the
  Ritz values. The following definitions follow its words, not the code: the steps, the
  sequence that the real algorithm chooses from the position \<open>i\<close> on, and the effect of
  a sequence of steps.
\<close>

datatype QRStep = DoubleShiftStep real real | SingleShiftStep real | ComplexShiftStep complex

function shifts_real :: "complex list \<Rightarrow> nat \<Rightarrow> QRStep list" where
  "shifts_real v i =
     (if i < length v then
        (if Im (v ! i) \<noteq> 0 \<and> i + 1 < length v \<and> v ! (i + 1) = cnj (v ! i)
         then DoubleShiftStep (2 * Re (v ! i)) ((cmod (v ! i))\<^sup>2) # shifts_real v (i + 2)
         else SingleShiftStep (Re (v ! i)) # shifts_real v (i + 1))
      else [])"
  by pat_completeness auto
termination
  by (relation "measure (\<lambda>(v, i). length v - i)") auto

declare shifts_real.simps [simp del]

definition shifts_complex :: "complex list \<Rightarrow> nat \<Rightarrow> QRStep list" where
  "shifts_complex v i = map ComplexShiftStep (drop i v)"

fun apply_step :: "('f, 'q, 'z) ShiftQR_scheme \<Rightarrow> 'f \<times> 'q \<Rightarrow> QRStep \<Rightarrow> 'f \<times> 'q" where
  "apply_step E st (DoubleShiftStep s t) = double_shift E s t st"
| "apply_step E st (SingleShiftStep mu) = real_shift E mu st"
| "apply_step E st (ComplexShiftStep mu) = complex_shift E mu st"

text \<open>
  The real algorithm of the specification looks at the value after the position \<open>i\<close>.
  \<open>unpaired_last v i\<close> says that, going from \<open>i\<close> as the specification describes, a
  value that is not real is met at the last position, where no value follows it.
\<close>

function unpaired_last :: "complex list \<Rightarrow> nat \<Rightarrow> bool" where
  "unpaired_last v i =
     (if i < length v then
        (if Im (v ! i) \<noteq> 0 then
           (if i + 1 < length v then
              (if v ! (i + 1) = cnj (v ! i) then unpaired_last v (i + 2)
               else unpaired_last v (i + 1))
            else True)
         else unpaired_last v (i + 1))
      else False)"
  by pat_completeness auto
termination
  by (relation "measure (\<lambda>(v, i). length v - i)") auto

declare unpaired_last.simps [simp del]

section \<open>The solver: \<^verbatim>\<open>GenEigsBase\<close>\<close>

text \<open>
  The data members of \<^verbatim>\<open>GenEigsBase\<close>. The operator \<^verbatim>\<open>m_op\<close> is only asked for its
  number of rows, which is \<open>m_n\<close>. The Arnoldi factorisation \<open>m_fac\<close> has the abstract
  type \<open>'f\<close>. The matrix of the Ritz vectors is the list of its columns.
\<close>

record 'f GenEigsBase =
  m_n :: Index
  m_nev :: Index
  m_ncv :: Index
  m_nmatop :: Index
  m_niter :: Index
  m_fac :: 'f
  m_ritz_val :: "complex list"
  m_ritz_vec :: "complex list list"
  m_ritz_est :: "complex list"
  m_ritz_conv :: "bool list"
  m_info :: CompInfo

text \<open>
  What the solver calls and the headers do not define:
  \<^item> \<open>real_scalar\<close>: whether \<^verbatim>\<open>Scalar\<close> is a real type; it selects the specialisation
    of \<^verbatim>\<open>RestartArnoldi\<close>;
  \<^item> \<open>epsilon\<close> and \<open>tmin\<close>: \<^verbatim>\<open>TypeTraits<RealScalar>::epsilon()\<close> and
    \<^verbatim>\<open>TypeTraits<RealScalar>::min()\<close>;
  \<^item> \<open>identity n\<close>: \<^verbatim>\<open>Matrix::Identity(n, n)\<close>;
  \<^item> \<open>compress_V Q fac\<close>: \<^verbatim>\<open>fac.compress_V(Q)\<close>;
  \<^item> \<open>factorize_from a b fac nmatop\<close>: \<^verbatim>\<open>fac.factorize_from(a, b, nmatop)\<close>, which
    returns the new factorisation and the new count of matrix operations, or throws;
  \<^item> \<open>fac_init v fac nmatop\<close>: \<^verbatim>\<open>fac.init(v, nmatop)\<close>, likewise;
  \<^item> \<open>f_norm fac\<close>: \<^verbatim>\<open>fac.f_norm()\<close>;
  \<^item> \<open>hess_eigen fac\<close>: the eigenvalues and the eigenvectors (as columns) that
    \<^verbatim>\<open>UpperHessenbergEigen<Scalar> decomp(fac.matrix_H())\<close> delivers, or its exception;
  \<^item> \<open>sort_index rule data n\<close>: the index vector of
    \<^verbatim>\<open>SortEigenvalue<Complex, rule>(data, n)\<close>;
  \<^item> \<open>random_vec n\<close>: \<^verbatim>\<open>SimpleRandom<Scalar>(0).random_vec(n)\<close>;
  \<^item> \<open>junk\<close> and \<open>junk_flag\<close>: what a coefficient of a newly allocated vector holds
    before it is assigned;
  \<^item> \<open>basis_times fac M\<close>: the product \<^verbatim>\<open>fac.matrix_V() * M\<close>.
\<close>

record ('f, 'q) Env = "('f, 'q) ShiftQR" +
  real_scalar :: bool
  epsilon :: real
  tmin :: real
  identity :: "Index \<Rightarrow> 'q"
  compress_V :: "'q \<Rightarrow> 'f \<Rightarrow> 'f"
  factorize_from :: "Index \<Rightarrow> Index \<Rightarrow> 'f \<Rightarrow> Index \<Rightarrow> error + 'f \<times> Index"
  fac_init :: "complex list \<Rightarrow> 'f \<Rightarrow> Index \<Rightarrow> error + 'f \<times> Index"
  f_norm :: "'f \<Rightarrow> real"
  hess_eigen :: "'f \<Rightarrow> error + complex list \<times> complex list list"
  sort_index :: "SortRule \<Rightarrow> complex list \<Rightarrow> Index \<Rightarrow> Index list"
  random_vec :: "Index \<Rightarrow> complex list"
  junk :: complex
  junk_flag :: bool
  basis_times :: "'f \<Rightarrow> complex list list \<Rightarrow> complex list list"

subsection \<open>Construction\<close>

text \<open>
  The constructor. \<open>n\<close> is \<^verbatim>\<open>op.rows()\<close>, \<open>mk_fac\<close> is the constructor of the Arnoldi
  factorisation, which receives \<open>m_ncv\<close>. The member initialisers run first, then the
  two checks of the constructor's body, in the order of the source.
\<close>

definition GenEigsBase_ctor :: "Index \<Rightarrow> (Index \<Rightarrow> 'f) \<Rightarrow> Index \<Rightarrow> Index \<Rightarrow> error + 'f GenEigsBase" where
  "GenEigsBase_ctor n mk_fac nev ncv =
    (let ncv' = (if ncv > n then n else ncv);
         s = \<lparr> m_n = n, m_nev = nev, m_ncv = ncv', m_nmatop = 0, m_niter = 0,
               m_fac = mk_fac ncv', m_ritz_val = [], m_ritz_vec = [], m_ritz_est = [],
               m_ritz_conv = [], m_info = NotComputed \<rparr>
     in if nev < 1 \<or> nev > m_n s - 2 then Inl InvalidArgument
        else if ncv < nev + 2 \<or> ncv > m_n s then Inl InvalidArgument
        else Inr s)"

text \<open>The demands of the specification on the parameters.\<close>

definition valid_params :: "Index \<Rightarrow> Index \<Rightarrow> Index \<Rightarrow> bool" where
  "valid_params n nev ncv = (1 \<le> nev \<and> nev \<le> n - 2 \<and> nev + 2 \<le> ncv \<and> ncv \<le> n)"

subsection \<open>Initialisation\<close>

text \<open>
  \<^verbatim>\<open>init(const Scalar* init_resid)\<close>: the vectors are resized and set to zero, the
  counters are reset, the factorisation is initialised with the residual; \<open>init_resid\<close>
  is the vector of the \<open>m_n\<close> values that the pointer refers to. The second function is
  the overload \<^verbatim>\<open>init()\<close>.
\<close>

definition init :: "('f, 'q, 'z) Env_scheme \<Rightarrow> complex list \<Rightarrow> 'f GenEigsBase \<Rightarrow> error + 'f GenEigsBase" where
  "init E init_resid s =
     (let s1 = s\<lparr> m_ritz_val := replicate (nat (m_ncv s)) 0,
                  m_ritz_vec := replicate (nat (m_nev s)) (replicate (nat (m_ncv s)) 0),
                  m_ritz_est := replicate (nat (m_ncv s)) 0,
                  m_ritz_conv := replicate (nat (m_nev s)) False,
                  m_nmatop := 0, m_niter := 0 \<rparr>
      in case fac_init E init_resid (m_fac s1) (m_nmatop s1) of
           Inl e \<Rightarrow> Inl e
         | Inr (fac, nmatop) \<Rightarrow> Inr (s1\<lparr> m_fac := fac, m_nmatop := nmatop \<rparr>))"

definition init_random :: "('f, 'q, 'z) Env_scheme \<Rightarrow> 'f GenEigsBase \<Rightarrow> error + 'f GenEigsBase" where
  "init_random E s = init E (random_vec E (m_n s)) s"

subsection \<open>Retrieving the Ritz pairs\<close>

text \<open>\<^verbatim>\<open>evecs(i, j)\<close> for a matrix given by its columns.\<close>

definition mcoeff :: "'a list list \<Rightarrow> Index \<Rightarrow> Index \<Rightarrow> error + 'a" where
  "mcoeff M i j = bindE (coeff M j) (\<lambda>c. coeff c i)"

text \<open>
  The first copy loop of \<^verbatim>\<open>retrieve_ritzpair\<close>:
  \<^verbatim>\<open>m_ritz_val[i] = evals[ind[i]]; m_ritz_est[i] = evecs(m_ncv - 1, ind[i]);\<close>
\<close>

function copy_val_est ::
  "complex list \<Rightarrow> complex list list \<Rightarrow> Index list \<Rightarrow> Index \<Rightarrow> Index
     \<Rightarrow> complex list \<times> complex list \<Rightarrow> error + complex list \<times> complex list" where
  "copy_val_est evals evecs ind ncv i (val, est) =
     (if i < ncv then
        (case bindE (coeff ind i) (\<lambda>j.
                bindE (coeff evals j) (\<lambda>x.
                bindE (mcoeff evecs (ncv - 1) j) (\<lambda>y.
                bindE (set_coeff val i x) (\<lambda>val'.
                bindE (set_coeff est i y) (\<lambda>est'. Inr (val', est')))))) of
           Inl e \<Rightarrow> Inl e
         | Inr r \<Rightarrow> copy_val_est evals evecs ind ncv (i + 1) r)
      else Inr (val, est))"
  by pat_completeness auto
termination
  by (relation "measure (\<lambda>(evals, evecs, ind, ncv, i, r). nat (ncv - i))") auto

declare copy_val_est.simps [simp del]

text \<open>The second copy loop: \<^verbatim>\<open>m_ritz_vec.col(i).noalias() = evecs.col(ind[i]);\<close>\<close>

function copy_vec ::
  "complex list list \<Rightarrow> Index list \<Rightarrow> Index \<Rightarrow> Index \<Rightarrow> complex list list
     \<Rightarrow> error + complex list list" where
  "copy_vec evecs ind nev i vec =
     (if i < nev then
        (case bindE (coeff ind i) (\<lambda>j.
                bindE (coeff evecs j) (\<lambda>c. set_coeff vec i c)) of
           Inl e \<Rightarrow> Inl e
         | Inr vec' \<Rightarrow> copy_vec evecs ind nev (i + 1) vec')
      else Inr vec)"
  by pat_completeness auto
termination
  by (relation "measure (\<lambda>(evecs, ind, nev, i, vec). nat (nev - i))") auto

declare copy_vec.simps [simp del]

text \<open>
  \<^verbatim>\<open>retrieve_ritzpair(selection)\<close>. The \<^verbatim>\<open>default\<close> branch of the \<^verbatim>\<open>switch\<close> is not reached
  by one of the six rules.
\<close>

definition retrieve_ritzpair ::
  "('f, 'q, 'z) Env_scheme \<Rightarrow> SortRule \<Rightarrow> 'f GenEigsBase \<Rightarrow> error + 'f GenEigsBase" where
  "retrieve_ritzpair E selection s =
     bindE (hess_eigen E (m_fac s)) (\<lambda>(evals, evecs).
       let ind = sort_index E selection evals (m_ncv s) in
       bindE (copy_val_est evals evecs ind (m_ncv s) 0 (m_ritz_val s, m_ritz_est s)) (\<lambda>(val, est).
       bindE (copy_vec evecs ind (m_nev s) 0 (m_ritz_vec s)) (\<lambda>vec.
         Inr (s\<lparr> m_ritz_val := val, m_ritz_est := est, m_ritz_vec := vec \<rparr>))))"

subsection \<open>The restart\<close>

text \<open>\<^verbatim>\<open>restart(k, selection)\<close>.\<close>

definition restart ::
  "('f, 'q, 'z) Env_scheme \<Rightarrow> Index \<Rightarrow> SortRule \<Rightarrow> 'f GenEigsBase \<Rightarrow> error + 'f GenEigsBase" where
  "restart E k selection s =
     (if k \<ge> m_ncv s then Inr s
      else
        bindE ((if real_scalar E then run_real E else run_complex E)
                 (m_ritz_val s) k (m_fac s) (identity E (m_ncv s))) (\<lambda>(fac, Q).
        bindE (factorize_from E k (m_ncv s) (compress_V E Q fac) (m_nmatop s)) (\<lambda>(fac', nmatop).
          retrieve_ritzpair E selection (s\<lparr> m_fac := fac', m_nmatop := nmatop \<rparr>))))"

subsection \<open>The convergence test\<close>

text \<open>
  \<^verbatim>\<open>num_converged(tol)\<close>. \<^verbatim>\<open>head(m_nev)\<close> is a block of the first \<open>m_nev\<close> coefficients,
  which must exist. The operations on arrays are coefficient-wise. The function stores
  the flags and returns their count.
\<close>

definition count_true :: "bool list \<Rightarrow> Index" where
  "count_true bs = int (length (filter (\<lambda>b. b) bs))"

definition head :: "'a list \<Rightarrow> Index \<Rightarrow> error + 'a list" where
  "head v n = (if 0 \<le> n \<and> n \<le> int (length v) then Inr (take (nat n) v) else Inl IndexOutOfRange)"

definition num_converged ::
  "('f, 'q, 'z) Env_scheme \<Rightarrow> real \<Rightarrow> 'f GenEigsBase \<Rightarrow> error + Index \<times> 'f GenEigsBase" where
  "num_converged E tol s =
     (let eps = epsilon E;
          eps23 = eps powr (2 / 3)
      in bindE (head (m_ritz_val s) (m_nev s)) (\<lambda>vals.
         bindE (head (m_ritz_est s) (m_nev s)) (\<lambda>ests.
           let thresh = map (\<lambda>x. tol * x) (map (\<lambda>a. max a eps23) (map cmod vals));
               resid = map (\<lambda>x. x * f_norm E (m_fac s)) (map cmod ests);
               conv = map2 (\<lambda>r t. r < t) resid thresh
           in Inr (count_true conv, s\<lparr> m_ritz_conv := conv \<rparr>))))"

subsection \<open>The adjusted number of retained Ritz values\<close>

text \<open>The counting loop of \<^verbatim>\<open>nev_adjusted\<close>.\<close>

function near_zero_loop :: "real \<Rightarrow> complex list \<Rightarrow> Index \<Rightarrow> Index \<Rightarrow> Index \<Rightarrow> error + Index" where
  "near_zero_loop near_0 est ncv i nev_new =
     (if i < ncv then
        (case coeff est i of
           Inl e \<Rightarrow> Inl e
         | Inr x \<Rightarrow>
            near_zero_loop near_0 est ncv (i + 1) (if cmod x < near_0 then nev_new + 1 else nev_new))
      else Inr nev_new)"
  by pat_completeness auto
termination
  by (relation "measure (\<lambda>(near_0, est, ncv, i, nev_new). nat (ncv - i))") auto

declare near_zero_loop.simps [simp del]

text \<open>\<^verbatim>\<open>nev_adjusted(nconv)\<close>.\<close>

definition nev_adjusted :: "('f, 'q, 'z) Env_scheme \<Rightarrow> 'f GenEigsBase \<Rightarrow> Index \<Rightarrow> error + Index" where
  "nev_adjusted E s nconv =
     (let near_0 = tmin E * 10 in
      bindE (near_zero_loop near_0 (m_ritz_est s) (m_ncv s) (m_nev s) (m_nev s)) (\<lambda>nev_new.
        let nev_new = nev_new + min nconv (cdiv (m_ncv s - nev_new) 2);
            nev_new = (if nev_new = 1 \<and> m_ncv s \<ge> 6 then cdiv (m_ncv s) 2
                       else if nev_new = 1 \<and> m_ncv s > 3 then 2
                       else nev_new);
            nev_new = (if nev_new > m_ncv s - 2 then m_ncv s - 2 else nev_new)
        in bindE (coeff (m_ritz_val s) (nev_new - 1)) (\<lambda>v1.
             if is_complex v1 then
               bindE (coeff (m_ritz_val s) nev_new) (\<lambda>v2.
                 if is_conj v1 v2 then Inr (nev_new + 1) else Inr nev_new)
             else Inr nev_new)))"

text \<open>
  The recipe of the specification for the same number, in its words: the number of the
  unwanted estimates that are nearly zero, the four adjustments, and the extension at a
  conjugate pair.
\<close>

definition near_zero_count :: "real \<Rightarrow> complex list \<Rightarrow> nat \<Rightarrow> nat \<Rightarrow> nat" where
  "near_zero_count tiny est nev ncv =
     length (filter (\<lambda>i. cmod (est ! i) < 10 * tiny) [nev..<ncv])"

definition nev_adjusted_spec ::
  "real \<Rightarrow> complex list \<Rightarrow> complex list \<Rightarrow> nat \<Rightarrow> nat \<Rightarrow> nat \<Rightarrow> nat" where
  "nev_adjusted_spec tiny val est nev ncv nconv =
     (let a = nev + near_zero_count tiny est nev ncv;
          b = a + min nconv ((ncv - a) div 2);
          c = (if b = 1 \<and> ncv \<ge> 6 then ncv div 2 else if b = 1 \<and> ncv > 3 then 2 else b);
          d = min c (ncv - 2)
      in if Im (val ! (d - 1)) \<noteq> 0 \<and> val ! d = cnj (val ! (d - 1)) then d + 1 else d)"

subsection \<open>Sorting the result\<close>

text \<open>
  The copy loop of \<^verbatim>\<open>sort_ritzpair\<close>:
  \<^verbatim>\<open>new_ritz_val[i] = m_ritz_val[ind[i]]; new_ritz_vec.col(i).noalias() = m_ritz_vec.col(ind[i]);
  new_ritz_conv[i] = m_ritz_conv[ind[i]];\<close>
\<close>

function sort_copy ::
  "'f GenEigsBase \<Rightarrow> Index list \<Rightarrow> Index
     \<Rightarrow> complex list \<times> complex list list \<times> bool list
     \<Rightarrow> error + complex list \<times> complex list list \<times> bool list" where
  "sort_copy s ind i (new_val, new_vec, new_conv) =
     (if i < m_nev s then
        (case bindE (coeff ind i) (\<lambda>j.
                bindE (coeff (m_ritz_val s) j) (\<lambda>x.
                bindE (set_coeff new_val i x) (\<lambda>new_val'.
                bindE (coeff (m_ritz_vec s) j) (\<lambda>c.
                bindE (set_coeff new_vec i c) (\<lambda>new_vec'.
                bindE (coeff (m_ritz_conv s) j) (\<lambda>b.
                bindE (set_coeff new_conv i b) (\<lambda>new_conv'.
                  Inr (new_val', new_vec', new_conv')))))))) of
           Inl e \<Rightarrow> Inl e
         | Inr r \<Rightarrow> sort_copy s ind (i + 1) r)
      else Inr (new_val, new_vec, new_conv))"
  by pat_completeness auto
termination
  by (relation "measure (\<lambda>(s, ind, i, r). nat (m_nev s - i))") auto

declare sort_copy.simps [simp del]

text \<open>
  \<^verbatim>\<open>sort_ritzpair(sort_rule)\<close>. The three new containers are allocated and not
  initialised; after the loop they replace the old ones.
\<close>

definition sort_ritzpair ::
  "('f, 'q, 'z) Env_scheme \<Rightarrow> SortRule \<Rightarrow> 'f GenEigsBase \<Rightarrow> error + 'f GenEigsBase" where
  "sort_ritzpair E sort_rule s =
     (let ind = sort_index E sort_rule (m_ritz_val s) (m_nev s);
          new_ritz_val = replicate (nat (m_ncv s)) (junk E);
          new_ritz_vec = replicate (nat (m_nev s)) (replicate (nat (m_ncv s)) (junk E));
          new_ritz_conv = replicate (nat (m_nev s)) (junk_flag E)
      in bindE (sort_copy s ind 0 (new_ritz_val, new_ritz_vec, new_ritz_conv)) (\<lambda>(val, vec, conv).
           Inr (s\<lparr> m_ritz_val := val, m_ritz_vec := vec, m_ritz_conv := conv \<rparr>)))"

subsection \<open>The computation\<close>

text \<open>
  The restarting loop of \<^verbatim>\<open>compute\<close>, from the value \<open>i\<close> of its counter on. It returns
  the final values of \<open>i\<close> and \<open>nconv\<close> with the solver.
\<close>

function restart_loop ::
  "('f, 'q, 'z) Env_scheme \<Rightarrow> SortRule \<Rightarrow> real \<Rightarrow> Index \<Rightarrow> Index \<Rightarrow> Index \<Rightarrow> 'f GenEigsBase
     \<Rightarrow> error + Index \<times> Index \<times> 'f GenEigsBase" where
  "restart_loop E selection tol maxit i nconv s =
     (if i < maxit then
        (case num_converged E tol s of
           Inl e \<Rightarrow> Inl e
         | Inr (nconv', s') \<Rightarrow>
            if nconv' \<ge> m_nev s' then Inr (i, nconv', s')
            else
              (case bindE (nev_adjusted E s' nconv') (\<lambda>nev_adj. restart E nev_adj selection s') of
                 Inl e \<Rightarrow> Inl e
               | Inr s'' \<Rightarrow> restart_loop E selection tol maxit (i + 1) nconv' s''))
      else Inr (i, nconv, s))"
  by pat_completeness auto
termination
  by (relation "measure (\<lambda>(E, selection, tol, maxit, i, nconv, s). nat (maxit - i))") auto

declare restart_loop.simps [simp del]

text \<open>\<^verbatim>\<open>compute(selection, maxit, tol, sorting)\<close>: the returned number and the solver.\<close>

definition compute ::
  "('f, 'q, 'z) Env_scheme \<Rightarrow> SortRule \<Rightarrow> Index \<Rightarrow> real \<Rightarrow> SortRule \<Rightarrow> 'f GenEigsBase
     \<Rightarrow> error + Index \<times> 'f GenEigsBase" where
  "compute E selection maxit tol sorting s =
     bindE (factorize_from E 1 (m_ncv s) (m_fac s) (m_nmatop s)) (\<lambda>(fac, nmatop).
     bindE (retrieve_ritzpair E selection (s\<lparr> m_fac := fac, m_nmatop := nmatop \<rparr>)) (\<lambda>s1.
     bindE (restart_loop E selection tol maxit 0 0 s1) (\<lambda>(i, nconv, s2).
     bindE (sort_ritzpair E sorting s2) (\<lambda>s3.
       Inr (min (m_nev s3) nconv,
            s3\<lparr> m_niter := m_niter s3 + (i + 1),
                m_info := (if nconv \<ge> m_nev s3 then Successful else NotConverging) \<rparr>)))))"

subsection \<open>The accessors\<close>

definition info :: "'f GenEigsBase \<Rightarrow> CompInfo" where
  "info s = m_info s"

definition num_iterations :: "'f GenEigsBase \<Rightarrow> Index" where
  "num_iterations s = m_niter s"

definition num_operations :: "'f GenEigsBase \<Rightarrow> Index" where
  "num_operations s = m_nmatop s"

text \<open>
  The loop of \<^verbatim>\<open>eigenvalues()\<close>:
  \<^verbatim>\<open>if (m_ritz_conv[i]) { res[j] = m_ritz_val[i]; j++; }\<close>
\<close>

function eigenvalues_loop ::
  "'f GenEigsBase \<Rightarrow> Index \<Rightarrow> Index \<Rightarrow> complex list \<Rightarrow> error + complex list" where
  "eigenvalues_loop s i j res =
     (if i < m_nev s then
        (case coeff (m_ritz_conv s) i of
           Inl e \<Rightarrow> Inl e
         | Inr b \<Rightarrow>
            if b then
              (case bindE (coeff (m_ritz_val s) i) (\<lambda>x. set_coeff res j x) of
                 Inl e \<Rightarrow> Inl e
               | Inr res' \<Rightarrow> eigenvalues_loop s (i + 1) (j + 1) res')
            else eigenvalues_loop s (i + 1) j res)
      else Inr res)"
  by pat_completeness auto
termination
  by (relation "measure (\<lambda>(s, i, j, res). nat (m_nev s - i))") auto

declare eigenvalues_loop.simps [simp del]

text \<open>\<^verbatim>\<open>eigenvalues()\<close>; the sum of the flags is their count.\<close>

definition eigenvalues :: "('f, 'q, 'z) Env_scheme \<Rightarrow> 'f GenEigsBase \<Rightarrow> error + complex list" where
  "eigenvalues E s =
     (let nconv = count_true (m_ritz_conv s);
          res = replicate (nat nconv) (junk E)
      in if nconv = 0 then Inr res else eigenvalues_loop s 0 0 res)"

text \<open>
  The loop of \<^verbatim>\<open>eigenvectors(nvec)\<close>, which runs while \<^verbatim>\<open>i < m_nev && j < nvec\<close>:
  \<^verbatim>\<open>if (m_ritz_conv[i]) { ritz_vec_conv.col(j).noalias() = m_ritz_vec.col(i); j++; }\<close>
\<close>

function eigenvectors_loop ::
  "'f GenEigsBase \<Rightarrow> Index \<Rightarrow> Index \<Rightarrow> Index \<Rightarrow> complex list list \<Rightarrow> error + complex list list" where
  "eigenvectors_loop s nvec i j res =
     (if i < m_nev s \<and> j < nvec then
        (case coeff (m_ritz_conv s) i of
           Inl e \<Rightarrow> Inl e
         | Inr b \<Rightarrow>
            if b then
              (case bindE (coeff (m_ritz_vec s) i) (\<lambda>c. set_coeff res j c) of
                 Inl e \<Rightarrow> Inl e
               | Inr res' \<Rightarrow> eigenvectors_loop s nvec (i + 1) (j + 1) res')
            else eigenvectors_loop s nvec (i + 1) j res)
      else Inr res)"
  by pat_completeness auto
termination
  by (relation "measure (\<lambda>(s, nvec, i, j, res). nat (m_nev s - i))") auto

declare eigenvectors_loop.simps [simp del]

text \<open>
  \<^verbatim>\<open>eigenvectors(nvec)\<close> and \<^verbatim>\<open>eigenvectors()\<close>; the result is a list of columns. A
  matrix with a negative number of columns cannot be allocated.
\<close>

definition eigenvectors ::
  "('f, 'q, 'z) Env_scheme \<Rightarrow> Index \<Rightarrow> 'f GenEigsBase \<Rightarrow> error + complex list list" where
  "eigenvectors E nvec s =
     (let nconv = count_true (m_ritz_conv s);
          nvec = min nvec nconv;
          res = replicate (nat nvec) (replicate (nat (m_n s)) (junk E))
      in if nvec < 0 then Inl IndexOutOfRange
         else if nvec = 0 then Inr res
         else
           bindE (eigenvectors_loop s nvec 0 0
                    (replicate (nat nvec) (replicate (nat (m_ncv s)) (junk E)))) (\<lambda>ritz_vec_conv.
             Inr (basis_times E (m_fac s) ritz_vec_conv)))"

definition eigenvectors_all ::
  "('f, 'q, 'z) Env_scheme \<Rightarrow> 'f GenEigsBase \<Rightarrow> error + complex list list" where
  "eigenvectors_all E s = eigenvectors E (m_nev s) s"

section \<open>The eigen solver for upper Hessenberg matrices: \<^verbatim>\<open>UpperHessenbergEigen\<close>\<close>

text \<open>
  A dense matrix is its number of rows and the list of its columns, each of that
  length; the number of columns is the length of the list.
\<close>

record 'a Matrix =
  rows :: nat
  colvecs :: "'a list list"

definition cols :: "'a Matrix \<Rightarrow> nat" where
  "cols M = length (colvecs M)"

text \<open>\<^verbatim>\<open>M.coeff(i, j)\<close>.\<close>

definition matrix_coeff :: "'a Matrix \<Rightarrow> Index \<Rightarrow> Index \<Rightarrow> error + 'a" where
  "matrix_coeff M i j = mcoeff (colvecs M) i j"

text \<open>
  \<^verbatim>\<open>maxCoeff()\<close> visits the coefficients and keeps the largest one; Eigen asserts that
  there is a coefficient. The second function is \<^verbatim>\<open>mat.cwiseAbs().maxCoeff()\<close>.
\<close>

fun maxCoeff :: "real list \<Rightarrow> error + real" where
  "maxCoeff [] = Inl EmptyReduction"
| "maxCoeff (x # xs) = Inr (fold (\<lambda>v res. if v > res then v else res) xs x)"

definition max_abs_coeff :: "real Matrix \<Rightarrow> error + real" where
  "max_abs_coeff mat = maxCoeff (map abs (concat (colvecs mat)))"

text \<open>
  \<^verbatim>\<open>mat / scale\<close>, the quotient of every coefficient by \<open>scale\<close>. The division of
  floating point numbers raises nothing: the quotient by zero is a value that is not
  a finite number (\<^verbatim>\<open>NaN\<close> for \<open>0 / 0\<close>, an infinity otherwise). Such a coefficient
  of the quotient is \<open>None\<close>.
\<close>

definition divide_matrix :: "real Matrix \<Rightarrow> real \<Rightarrow> real option Matrix" where
  "divide_matrix mat scale =
     \<lparr> rows = rows mat,
       colvecs = map (map (\<lambda>x. if scale = 0 then None else Some (x / scale))) (colvecs mat) \<rparr>"

subsection \<open>The real specialisation\<close>

text \<open>
  The data members \<^verbatim>\<open>m_n\<close>, \<^verbatim>\<open>m_matT\<close>, \<^verbatim>\<open>m_eivec\<close>, \<^verbatim>\<open>m_eivalues\<close> and \<^verbatim>\<open>m_computed\<close> of
  the class for a real \<^verbatim>\<open>Scalar\<close>.
\<close>

record RealEigen =
  re_n :: Index
  re_matT :: "real Matrix"
  re_eivec :: "real Matrix"
  re_eivalues :: "complex list"
  re_computed :: bool

text \<open>
  Two numerical kernels are parameters of the real specialisation:
  \<^item> \<open>real_schur A\<close>: the matrices \<open>T\<close> and \<open>U\<close> that \<^verbatim>\<open>UpperHessenbergSchur\<close> computes for
    \<open>A\<close>, or its exception; that class is not part of the header. Its argument is the
    scaled matrix, which may have coefficients that are not finite numbers;
  \<^item> \<open>back_substitute T U eivalues\<close>: the matrices \<^verbatim>\<open>m_matT\<close> and \<^verbatim>\<open>m_eivec\<close> after
    \<^verbatim>\<open>doComputeEigenvectors()\<close>, whose back substitution throws no exception and
    changes nothing else. No property below depends on what it computes.
\<close>

record RealKernels =
  real_schur :: "real option Matrix \<Rightarrow> error + real Matrix \<times> real Matrix"
  back_substitute :: "real Matrix \<Rightarrow> real Matrix \<Rightarrow> complex list \<Rightarrow> real Matrix \<times> real Matrix"

text \<open>The default constructor.\<close>

definition RealEigen_new :: RealEigen where
  "RealEigen_new = \<lparr> re_n = 0, re_matT = \<lparr>rows = 0, colvecs = []\<rparr>,
                     re_eivec = \<lparr>rows = 0, colvecs = []\<rparr>, re_eivalues = [], re_computed = False \<rparr>"

text \<open>
  The loop of \<^verbatim>\<open>compute\<close> that reads the eigenvalues from the blocks on the diagonal of
  \<^verbatim>\<open>m_matT\<close>, from the position \<open>i\<close> on.
\<close>

function eigenvalues_of_T :: "real Matrix \<Rightarrow> Index \<Rightarrow> Index \<Rightarrow> complex list \<Rightarrow> error + complex list" where
  "eigenvalues_of_T T n i ev =
     (if i < n then
        (case (if i = n - 1 then Inr True else bindE (matrix_coeff T (i + 1) i) (\<lambda>x. Inr (x = 0))) of
           Inl e \<Rightarrow> Inl e
         | Inr True \<Rightarrow>
            (case bindE (matrix_coeff T i i) (\<lambda>x. set_coeff ev i (complex_of_real x)) of
               Inl e \<Rightarrow> Inl e
             | Inr ev' \<Rightarrow> eigenvalues_of_T T n (i + 1) ev')
         | Inr False \<Rightarrow>
            (case bindE (matrix_coeff T i i) (\<lambda>tii.
                    bindE (matrix_coeff T (i + 1) (i + 1)) (\<lambda>tjj.
                    bindE (matrix_coeff T (i + 1) i) (\<lambda>t0.
                    bindE (matrix_coeff T i (i + 1)) (\<lambda>t1.
                      let p = 0.5 * (tii - tjj);
                          maxval = max \<bar>p\<bar> (max \<bar>t0\<bar> \<bar>t1\<bar>);
                          t0' = t0 / maxval;
                          t1' = t1 / maxval;
                          p0 = p / maxval;
                          z = maxval * sqrt \<bar>p0 * p0 + t0' * t1'\<bar>
                      in bindE (set_coeff ev i (Complex (tjj + p) z)) (\<lambda>ev'.
                           set_coeff ev' (i + 1) (Complex (tjj + p) (- z))))))) of
               Inl e \<Rightarrow> Inl e
             | Inr ev' \<Rightarrow> eigenvalues_of_T T n (i + 2) ev'))
      else Inr ev)"
  by pat_completeness auto
termination
  by (relation "measure (\<lambda>(T, n, i, ev). nat (n - i))") auto

declare eigenvalues_of_T.simps [simp del]

text \<open>
  \<^verbatim>\<open>compute(mat)\<close>. The result is the object after the call, and the exception if the
  call has thrown one. \<^verbatim>\<open>m_eivalues.resize(m_n)\<close> leaves the coefficients as they are or
  without a value; each one is assigned by the loop, and the model starts from zeros.
\<close>

definition compute_real :: "RealKernels \<Rightarrow> real Matrix \<Rightarrow> RealEigen \<Rightarrow> RealEigen \<times> error option" where
  "compute_real K mat st =
     (if rows mat \<noteq> cols mat then (st, Some InvalidArgument)
      else
        let st1 = st\<lparr> re_n := int (rows mat) \<rparr> in
        case bindE (max_abs_coeff mat) (\<lambda>scale.
             bindE (real_schur K (divide_matrix mat scale)) (\<lambda>(T, U). Inr (scale, T, U))) of
          Inl e \<Rightarrow> (st1, Some e)
        | Inr (scale, T, U) \<Rightarrow>
            let st2 = st1\<lparr> re_matT := T, re_eivec := U \<rparr> in
            (case eigenvalues_of_T (re_matT st2) (re_n st2) 0 (replicate (nat (re_n st2)) 0) of
               Inl e \<Rightarrow> (st2, Some e)
             | Inr ev \<Rightarrow>
                 let (T', V) = back_substitute K (re_matT st2) (re_eivec st2) ev
                 in (st2\<lparr> re_matT := T', re_eivec := V,
                          re_eivalues := map (\<lambda>z. z * complex_of_real scale) ev,
                          re_computed := True \<rparr>, None)))"

text \<open>
  The constructor from a matrix calls \<^verbatim>\<open>compute\<close>; there is no object when that throws.
\<close>

definition RealEigen_of :: "RealKernels \<Rightarrow> real Matrix \<Rightarrow> error + RealEigen" where
  "RealEigen_of K mat =
     (case compute_real K mat (RealEigen_new\<lparr> re_n := int (rows mat) \<rparr>) of
        (st, None) \<Rightarrow> Inr st
      | (st, Some e) \<Rightarrow> Inl e)"

text \<open>\<^verbatim>\<open>eigenvalues()\<close>.\<close>

definition eigenvalues_real :: "RealEigen \<Rightarrow> error + complex list" where
  "eigenvalues_real st = (if \<not> re_computed st then Inl LogicError else Inr (re_eivalues st))"

text \<open>
  \<^verbatim>\<open>normalize()\<close> of a column: it is divided by its norm when that is positive.
\<close>

definition normalize :: "complex list \<Rightarrow> complex list" where
  "normalize c =
     (let z = sum_list (map (\<lambda>x. (cmod x)\<^sup>2) c)
      in if z > 0 then map (\<lambda>x. x / complex_of_real (sqrt z)) c else c)"

text \<open>
  The loop of \<^verbatim>\<open>eigenvectors()\<close> over the columns, from the column \<open>j\<close> on: a real
  eigenvalue has the column of \<^verbatim>\<open>m_eivec\<close> as its eigenvector, a pair of complex
  eigenvalues has two columns as the real and the imaginary part.
\<close>

function eigenvectors_real_loop ::
  "RealEigen \<Rightarrow> Index \<Rightarrow> Index \<Rightarrow> complex list list \<Rightarrow> error + complex list list" where
  "eigenvectors_real_loop st n j matV =
     (if j < n then
        (case coeff (re_eivalues st) j of
           Inl e \<Rightarrow> Inl e
         | Inr lam \<Rightarrow>
            if Im lam = 0 \<or> j + 1 = n then
              (case bindE (coeff (colvecs (re_eivec st)) j) (\<lambda>c.
                      set_coeff matV j (normalize (map complex_of_real c))) of
                 Inl e \<Rightarrow> Inl e
               | Inr matV' \<Rightarrow> eigenvectors_real_loop st n (j + 1) matV')
            else
              (case bindE (coeff (colvecs (re_eivec st)) j) (\<lambda>c.
                    bindE (coeff (colvecs (re_eivec st)) (j + 1)) (\<lambda>d.
                    bindE (head c n) (\<lambda>c'.
                    bindE (head d n) (\<lambda>d'.
                    bindE (set_coeff matV j (normalize (map2 Complex c' d'))) (\<lambda>matV'.
                      set_coeff matV' (j + 1) (normalize (map2 (\<lambda>x y. Complex x (- y)) c' d'))))))) of
                 Inl e \<Rightarrow> Inl e
               | Inr matV' \<Rightarrow> eigenvectors_real_loop st n (j + 1 + 1) matV'))
      else Inr matV)"
  by pat_completeness auto
termination
  by (relation "measure (\<lambda>(st, n, j, matV). nat (n - j))") auto

declare eigenvectors_real_loop.simps [simp del]

text \<open>
  \<^verbatim>\<open>eigenvectors()\<close>; the result is the list of the columns of \<^verbatim>\<open>matV\<close>. The loop
  assigns every column of the new matrix; the model starts from zeros.
\<close>

definition eigenvectors_real :: "RealEigen \<Rightarrow> error + complex list list" where
  "eigenvectors_real st =
     (if \<not> re_computed st then Inl LogicError
      else
        let n = int (cols (re_eivec st))
        in eigenvectors_real_loop st n 0 (replicate (nat n) (replicate (nat n) 0)))"

subsection \<open>The complex specialisation\<close>

text \<open>
  The data members \<^verbatim>\<open>m_n\<close>, \<^verbatim>\<open>m_eivec\<close>, \<^verbatim>\<open>m_eivalues\<close> and \<^verbatim>\<open>m_computed\<close> of the class
  for a complex \<^verbatim>\<open>Scalar\<close>.
\<close>

record ComplexEigen =
  cx_n :: Index
  cx_eivec :: "complex Matrix"
  cx_eivalues :: "complex list"
  cx_computed :: bool

text \<open>
  The numerical kernels of the complex specialisation:
  \<^item> \<open>complex_schur A U0\<close>: \<^verbatim>\<open>Eigen::ComplexSchur::computeFromHessenberg(A, U0, true)\<close>;
    the result is \<open>None\<close> when \<^verbatim>\<open>info()\<close> is not \<^verbatim>\<open>Eigen::Success\<close>, and the matrices
    \<^verbatim>\<open>matrixT()\<close> and \<^verbatim>\<open>matrixU()\<close> otherwise;
  \<^item> \<open>triangular_eigenvectors T U eivalues matrixnorm\<close>: the matrix \<^verbatim>\<open>m_eivec\<close> after
    \<^verbatim>\<open>doComputeEigenvectors(matrixnorm)\<close>, a triangular solve, a matrix product and a
    normalisation of the columns, which throw no exception. No property below depends
    on what it computes, only on its being a matrix with one column for each
    eigenvalue.
\<close>

record ComplexKernels =
  complex_schur :: "complex Matrix \<Rightarrow> complex Matrix \<Rightarrow> (complex Matrix \<times> complex Matrix) option"
  triangular_eigenvectors ::
    "complex Matrix \<Rightarrow> complex Matrix \<Rightarrow> complex list \<Rightarrow> real \<Rightarrow> complex Matrix"

definition ComplexEigen_new :: ComplexEigen where
  "ComplexEigen_new = \<lparr> cx_n = 0, cx_eivec = \<lparr>rows = 0, colvecs = []\<rparr>, cx_eivalues = [],
                        cx_computed = False \<rparr>"

text \<open>\<^verbatim>\<open>setIdentity()\<close> after \<^verbatim>\<open>resize(r, c)\<close>, \<^verbatim>\<open>diagonal()\<close> and \<^verbatim>\<open>norm()\<close>.\<close>

definition identity_matrix :: "nat \<Rightarrow> nat \<Rightarrow> complex Matrix" where
  "identity_matrix r c =
     \<lparr> rows = r, colvecs = map (\<lambda>j. map (\<lambda>i. if i = j then 1 else 0) [0..<r]) [0..<c] \<rparr>"

definition diagonal :: "'a Matrix \<Rightarrow> 'a list" where
  "diagonal M = map (\<lambda>i. colvecs M ! i ! i) [0..<min (rows M) (cols M)]"

definition matrix_norm :: "complex Matrix \<Rightarrow> real" where
  "matrix_norm M = sqrt (sum_list (map (\<lambda>x. (cmod x)\<^sup>2) (concat (colvecs M))))"

text \<open>
  \<^verbatim>\<open>minCoeff(&k)\<close> visits the coefficients in their order and moves to a coefficient
  only when it is smaller than the smallest one before it; \<open>k\<close> is the position that
  it has reached at the end. \<^verbatim>\<open>tail(m)\<close> is the block of the last \<open>m\<close> coefficients.
\<close>

fun minCoeff_visit :: "real list \<Rightarrow> Index \<Rightarrow> real \<Rightarrow> Index \<Rightarrow> Index" where
  "minCoeff_visit [] j res k = k"
| "minCoeff_visit (x # xs) j res k =
     (if x < res then minCoeff_visit xs (j + 1) x j else minCoeff_visit xs (j + 1) res k)"

fun minCoeff_index :: "real list \<Rightarrow> error + Index" where
  "minCoeff_index [] = Inl EmptyReduction"
| "minCoeff_index (x # xs) = Inr (minCoeff_visit xs 1 x 0)"

definition tail :: "'a list \<Rightarrow> Index \<Rightarrow> error + 'a list" where
  "tail v m =
     (if 0 \<le> m \<and> m \<le> int (length v) then Inr (drop (length v - nat m) v)
      else Inl IndexOutOfRange)"

text \<open>\<^verbatim>\<open>std::swap(v[a], v[b])\<close>, and \<^verbatim>\<open>M.col(a).swap(M.col(b))\<close> on the list of columns.\<close>

definition swap_coeff :: "'a list \<Rightarrow> Index \<Rightarrow> Index \<Rightarrow> error + 'a list" where
  "swap_coeff v a b =
     bindE (coeff v a) (\<lambda>x.
     bindE (coeff v b) (\<lambda>y.
     bindE (set_coeff v a y) (\<lambda>v'. set_coeff v' b x)))"

text \<open>
  The loop of \<^verbatim>\<open>sortEigenvalues(computeEigenvectors)\<close> on the eigenvalues and the columns
  of \<^verbatim>\<open>m_eivec\<close>, from the position \<open>i\<close> on; \<open>n\<close> is the number of the eigenvalues.
\<close>

function sort_loop ::
  "bool \<Rightarrow> Index \<Rightarrow> Index \<Rightarrow> complex list \<times> 'c list \<Rightarrow> error + complex list \<times> 'c list" where
  "sort_loop computeEigenvectors n i (ev, vec) =
     (if i < n then
        (case bindE (tail (map cmod ev) (n - i)) minCoeff_index of
           Inl e \<Rightarrow> Inl e
         | Inr k \<Rightarrow>
            if k \<noteq> 0 then
              (case bindE (swap_coeff ev (k + i) i) (\<lambda>ev'.
                      if computeEigenvectors
                      then bindE (swap_coeff vec i (k + i)) (\<lambda>vec'. Inr (ev', vec'))
                      else Inr (ev', vec)) of
                 Inl e \<Rightarrow> Inl e
               | Inr r \<Rightarrow> sort_loop computeEigenvectors n (i + 1) r)
            else sort_loop computeEigenvectors n (i + 1) (ev, vec))
      else Inr (ev, vec))"
  by pat_completeness auto
termination
  by (relation "measure (\<lambda>(c, n, i, r). nat (n - i))") auto

declare sort_loop.simps [simp del]

definition sortEigenvalues :: "bool \<Rightarrow> ComplexEigen \<Rightarrow> error + ComplexEigen" where
  "sortEigenvalues computeEigenvectors st =
     bindE (sort_loop computeEigenvectors (int (length (cx_eivalues st))) 0
              (cx_eivalues st, colvecs (cx_eivec st))) (\<lambda>(ev, vec).
       Inr (st\<lparr> cx_eivalues := ev, cx_eivec := (cx_eivec st)\<lparr> colvecs := vec \<rparr> \<rparr>))"

text \<open>
  \<^verbatim>\<open>compute(mat)\<close>: the object after the call, and the exception if the call has thrown
  one.
\<close>

definition compute_complex ::
  "ComplexKernels \<Rightarrow> complex Matrix \<Rightarrow> ComplexEigen \<Rightarrow> ComplexEigen \<times> error option" where
  "compute_complex K mat st =
     (if rows mat \<noteq> cols mat then (st, Some InvalidArgument)
      else
        let st1 = st\<lparr> cx_eivec := identity_matrix (rows mat) (cols mat) \<rparr>
        in case complex_schur K mat (cx_eivec st1) of
             None \<Rightarrow> (st1, Some RuntimeError)
           | Some (T, U) \<Rightarrow>
               let st2 = st1\<lparr> cx_eivalues := diagonal T \<rparr>;
                   st3 = st2\<lparr> cx_eivec :=
                              triangular_eigenvectors K T U (cx_eivalues st2) (matrix_norm T) \<rparr>
               in (case sortEigenvalues True st3 of
                     Inl e \<Rightarrow> (st3, Some e)
                   | Inr st4 \<Rightarrow> (st4\<lparr> cx_computed := True \<rparr>, None)))"

definition ComplexEigen_of :: "ComplexKernels \<Rightarrow> complex Matrix \<Rightarrow> error + ComplexEigen" where
  "ComplexEigen_of K mat =
     (case compute_complex K mat (ComplexEigen_new\<lparr> cx_n := int (rows mat) \<rparr>) of
        (st, None) \<Rightarrow> Inr st
      | (st, Some e) \<Rightarrow> Inl e)"

text \<open>\<^verbatim>\<open>eigenvalues()\<close> and \<^verbatim>\<open>eigenvectors()\<close>.\<close>

definition eigenvalues_complex :: "ComplexEigen \<Rightarrow> error + complex list" where
  "eigenvalues_complex st = (if \<not> cx_computed st then Inl LogicError else Inr (cx_eivalues st))"

definition eigenvectors_complex :: "ComplexEigen \<Rightarrow> error + complex Matrix" where
  "eigenvectors_complex st = (if \<not> cx_computed st then Inl LogicError else Inr (cx_eivec st))"

section \<open>Instances for evaluation\<close>

text \<open>
  A QR engine that only records the steps it is asked for: its factorisation is the
  list of the steps so far.
\<close>

definition QRlog :: "(QRStep list, unit) ShiftQR" where
  "QRlog = \<lparr> double_shift = (\<lambda>s t (l, q). (l @ [DoubleShiftStep s t], q)),
              real_shift = (\<lambda>mu (l, q). (l @ [SingleShiftStep mu], q)),
              complex_shift = (\<lambda>mu (l, q). (l @ [ComplexShiftStep mu], q)) \<rparr>"

text \<open>
  A solver environment for evaluation. Its factorisation carries no data, its QR steps
  do nothing, the eigen decomposition of the projected matrix always delivers the
  eigenvalues \<open>3, 2, 1\<close> with eigenvectors whose last components are \<open>1\<close>, the
  residual norm is \<open>1\<close>, and the sorting helper leaves the order as it is.
\<close>

definition Env0 :: "(unit, unit) Env" where
  "Env0 = \<lparr> double_shift = (\<lambda>s t st. st), real_shift = (\<lambda>mu st. st),
             complex_shift = (\<lambda>mu st. st),
             real_scalar = True, epsilon = 1 / 8, tmin = 1 / 1000,
             identity = (\<lambda>n. ()), compress_V = (\<lambda>Q fac. fac),
             factorize_from = (\<lambda>from_k to_m fac nmatop. Inr (fac, nmatop + (to_m - from_k))),
             fac_init = (\<lambda>v fac nmatop. Inr (fac, nmatop)),
             f_norm = (\<lambda>fac. 1),
             hess_eigen = (\<lambda>fac. Inr ([3, 2, 1], [[1, 0, 1], [0, 1, 1], [0, 0, 1]])),
             sort_index = (\<lambda>rule data n. map int [0..<nat n]),
             random_vec = (\<lambda>n. replicate (nat n) 1),
             junk = 0, junk_flag = False,
             basis_times = (\<lambda>fac M. M) \<rparr>"

text \<open>A solver with six Ritz values, two of them wanted.\<close>

definition solver6 :: "unit GenEigsBase" where
  "solver6 = \<lparr> m_n = 10, m_nev = 2, m_ncv = 6, m_nmatop = 6, m_niter = 0, m_fac = (),
      m_ritz_val = [5, 4, 3, Complex 1 2, Complex 1 (- 2), 0],
      m_ritz_vec = [[0, 0, 0, 0, 0, 1], [0, 0, 0, 0, 0, 1]],
      m_ritz_est = [1 / 20, 1, 1, 0, 1, 1],
      m_ritz_conv = [False, False], m_info = NotComputed \<rparr>"

text \<open>
  Kernels for the evaluation of the eigen solvers: the Schur decomposition of a matrix
  that is triangular already is the matrix itself with the identity as the unitary
  factor, and the kernels for the eigenvectors return that factor. The real Schur
  reduction fails on a matrix with a coefficient that is not a finite number.
\<close>

definition RealKernels0 :: RealKernels where
  "RealKernels0 =
     \<lparr> real_schur = (\<lambda>A. if None \<in> set (concat (colvecs A)) then Inl RuntimeError
                         else let B = \<lparr> rows = rows A, colvecs = map (map the) (colvecs A) \<rparr>
                              in Inr (B, B)),
       back_substitute = (\<lambda>T U ev. (T, U)) \<rparr>"

definition ComplexKernels0 :: ComplexKernels where
  "ComplexKernels0 = \<lparr> complex_schur = (\<lambda>A U0. Some (A, U0)),
                         triangular_eigenvectors = (\<lambda>T U ev nrm. U) \<rparr>"

text \<open>Matrices with two rows and three columns, and the zero matrix of dimension two.\<close>

definition rmat23 :: "real Matrix" where
  "rmat23 = \<lparr> rows = 2, colvecs = [[1, 2], [3, 4], [5, 6]] \<rparr>"

definition cmat23 :: "complex Matrix" where
  "cmat23 = \<lparr> rows = 2, colvecs = [[1, 2], [3, 4], [5, 6]] \<rparr>"

definition zero22 :: "real Matrix" where
  "zero22 = \<lparr> rows = 2, colvecs = [[0, 0], [0, 0]] \<rparr>"

text \<open>
  Two upper triangular matrices, given by their columns, with the diagonals \<open>3, 1, 2\<close>
  and \<open>2, -2, 1\<close>.
\<close>

definition tri312 :: "complex Matrix" where
  "tri312 = \<lparr> rows = 3, colvecs = [[3, 0, 0], [5, 1, 0], [0, 7, 2]] \<rparr>"

definition tri2m21 :: "complex Matrix" where
  "tri2m21 = \<lparr> rows = 3, colvecs = [[2, 0, 0], [5, - 2, 0], [0, 7, 1]] \<rparr>"

text \<open>
  The solver of dimension three for one eigenvalue after its construction and \<^verbatim>\<open>init()\<close>,
  the same solver with the Ritz pairs of the environment above, and with the Ritz
  values after the final sorting.
\<close>

definition solver3 :: "unit GenEigsBase" where
  "solver3 = \<lparr> m_n = 3, m_nev = 1, m_ncv = 3, m_nmatop = 0, m_niter = 0, m_fac = (),
      m_ritz_val = [0, 0, 0], m_ritz_vec = [[0, 0, 0]], m_ritz_est = [0, 0, 0],
      m_ritz_conv = [False], m_info = NotComputed \<rparr>"

definition solver3_ritz :: "unit GenEigsBase" where
  "solver3_ritz = solver3\<lparr> m_ritz_val := [3, 2, 1], m_ritz_vec := [[1, 0, 1]],
                            m_ritz_est := [1, 1, 1] \<rparr>"

definition solver3_sorted :: "unit GenEigsBase" where
  "solver3_sorted = solver3_ritz\<lparr> m_nmatop := 4, m_ritz_val := [3, 0, 0] \<rparr>"

text \<open>
  A solver environment for the restart at conjugate pairs. The eigen decomposition of
  the projected matrix delivers the two conjugate pairs \<open>3 \<plusminus> 4i\<close> and \<open>4 \<plusminus> 3i\<close> in the
  order of their imaginary parts, as the selection rule for the largest imaginary part
  asks for them; everything else is as in the environment above. The solver of
  dimension four for one eigenvalue follows, after its construction and \<^verbatim>\<open>init()\<close>, and
  with the Ritz pairs of this environment.
\<close>

definition EnvPairs :: "(unit, unit) Env" where
  "EnvPairs = Env0\<lparr> hess_eigen := (\<lambda>fac.
      Inr ([Complex 3 4, Complex 4 3, Complex 4 (- 3), Complex 3 (- 4)],
           [[1, 0, 0, 1], [0, 1, 0, 1], [0, 0, 1, 1], [0, 0, 0, 1]])) \<rparr>"

definition pairs_solver :: "unit GenEigsBase" where
  "pairs_solver = \<lparr> m_n = 4, m_nev = 1, m_ncv = 4, m_nmatop = 0, m_niter = 0, m_fac = (),
      m_ritz_val = [0, 0, 0, 0], m_ritz_vec = [[0, 0, 0, 0]], m_ritz_est = [0, 0, 0, 0],
      m_ritz_conv = [False], m_info = NotComputed \<rparr>"

definition pairs_ritz :: "unit GenEigsBase" where
  "pairs_ritz = pairs_solver\<lparr> m_nmatop := 3,
      m_ritz_val := [Complex 3 4, Complex 4 3, Complex 4 (- 3), Complex 3 (- 4)],
      m_ritz_vec := [[1, 0, 0, 1]], m_ritz_est := [1, 1, 1, 1], m_ritz_conv := [False] \<rparr>"

text \<open>
  A solver environment whose factorisation is the number of the times that it has been
  extended. After the first extension the projected matrix has the eigenvalues
  \<open>8, 5, 2, 1\<close>, and the residual estimate of \<open>8\<close> is zero; after the restart it has
  the eigenvalues \<open>9, 8, 2, 1\<close>, and the residual estimate of \<open>8\<close> is zero again. The
  other estimates are \<open>1\<close>, as the residual norm. The solver of dimension four for two
  eigenvalues follows, after its construction and \<^verbatim>\<open>init()\<close>, with the Ritz pairs of the
  first extension, and as \<^verbatim>\<open>compute\<close> with \<open>maxit = 1\<close> leaves it.
\<close>

definition Env1 :: "(nat, unit) Env" where
  "Env1 = \<lparr> double_shift = (\<lambda>s t st. st), real_shift = (\<lambda>mu st. st),
             complex_shift = (\<lambda>mu st. st),
             real_scalar = True, epsilon = 1 / 8, tmin = 1 / 1000,
             identity = (\<lambda>n. ()), compress_V = (\<lambda>Q fac. fac),
             factorize_from = (\<lambda>from_k to_m fac nmatop. Inr (Suc fac, nmatop + (to_m - from_k))),
             fac_init = (\<lambda>v fac nmatop. Inr (fac, nmatop)),
             f_norm = (\<lambda>fac. 1),
             hess_eigen = (\<lambda>fac.
               if fac \<le> 1
               then Inr ([8, 5, 2, 1], [[1, 0, 0, 0], [0, 1, 0, 1], [0, 0, 1, 1], [0, 0, 0, 1]])
               else Inr ([9, 8, 2, 1], [[1, 0, 0, 1], [0, 1, 0, 0], [0, 0, 1, 1], [0, 0, 0, 1]])),
             sort_index = (\<lambda>rule data n. map int [0..<nat n]),
             random_vec = (\<lambda>n. replicate (nat n) 1),
             junk = 0, junk_flag = False,
             basis_times = (\<lambda>fac M. M) \<rparr>"

definition solver4 :: "nat GenEigsBase" where
  "solver4 = \<lparr> m_n = 4, m_nev = 2, m_ncv = 4, m_nmatop = 0, m_niter = 0, m_fac = 0,
      m_ritz_val = [0, 0, 0, 0], m_ritz_vec = [[0, 0, 0, 0], [0, 0, 0, 0]],
      m_ritz_est = [0, 0, 0, 0], m_ritz_conv = [False, False], m_info = NotComputed \<rparr>"

definition solver4_first :: "nat GenEigsBase" where
  "solver4_first = solver4\<lparr> m_nmatop := 3, m_fac := 1, m_ritz_val := [8, 5, 2, 1],
      m_ritz_vec := [[1, 0, 0, 0], [0, 1, 0, 1]], m_ritz_est := [0, 1, 1, 1] \<rparr>"

definition solver4_final :: "nat GenEigsBase" where
  "solver4_final = solver4\<lparr> m_nmatop := 5, m_niter := 2, m_fac := 2, m_ritz_val := [9, 8, 0, 0],
      m_ritz_vec := [[1, 0, 0, 1], [0, 1, 0, 0]], m_ritz_est := [1, 0, 1, 1],
      m_ritz_conv := [True, False], m_info := NotConverging \<rparr>"

section \<open>Properties of the construction\<close>

lemma ctor_cases:
  "GenEigsBase_ctor n mk_fac nev ncv =
     (if valid_params n nev ncv
      then Inr \<lparr> m_n = n, m_nev = nev, m_ncv = ncv, m_nmatop = 0, m_niter = 0,
                 m_fac = mk_fac ncv, m_ritz_val = [], m_ritz_vec = [], m_ritz_est = [],
                 m_ritz_conv = [], m_info = NotComputed \<rparr>
      else Inl InvalidArgument)"
  by (auto simp: GenEigsBase_ctor_def valid_params_def Let_def)

text \<open>
  The constructor computes \<open>m_n - 2\<close> and, only when the first check has passed,
  \<open>nev + 2\<close>. For a number of rows \<open>n \<ge> 0\<close> and arguments of the 64 bit type
  \<^verbatim>\<open>Eigen::Index\<close> both results are values of that type: the arithmetic of the
  constructor does not overflow, and \<open>int\<close> models it exactly.
\<close>

lemma ctor_arithmetic_in_range:
  fixes n nev :: Index
  assumes "0 \<le> n" and "n < 2 ^ 63" and "- (2 ^ 63) \<le> nev" and "nev < 2 ^ 63"
  shows "- (2 ^ 63) \<le> n - 2 \<and> n - 2 < 2 ^ 63
     \<and> (\<not> (nev < 1 \<or> nev > n - 2) \<longrightarrow> - (2 ^ 63) \<le> nev + 2 \<and> nev + 2 < 2 ^ 63)"
  using assms by auto

text \<open>
  Claim C5. The constructor throws \<^verbatim>\<open>std::invalid_argument\<close> if and only if the
  parameters violate \<open>1 \<le> nev \<le> n - 2\<close> or \<open>nev + 2 \<le> ncv \<le> n\<close>; no other error is
  possible, and the object it returns otherwise has done no computation: both counters
  are zero and the status is "not computed". At the boundary: \<open>nev = n - 2\<close> with
  \<open>ncv = n\<close> is accepted (for the dimensions \<open>n \<ge> 3\<close>, where \<open>n - 2\<close> is a number of
  eigenvalues that can be asked for at all), and \<open>nev = 0\<close>, \<open>nev > n - 2\<close> and
  \<open>ncv < nev + 2\<close> are each rejected.
\<close>

theorem ctor_validation:
  "((GenEigsBase_ctor n mk_fac nev ncv = Inl InvalidArgument) = (\<not> valid_params n nev ncv))
   \<and> ((\<exists>s. GenEigsBase_ctor n mk_fac nev ncv = Inr s \<and> m_nmatop s = 0 \<and> m_niter s = 0
          \<and> m_info s = NotComputed \<and> m_n s = n \<and> m_nev s = nev \<and> m_ncv s = ncv)
        = valid_params n nev ncv)
   \<and> (3 \<le> n \<longrightarrow> (\<exists>s. GenEigsBase_ctor n mk_fac (n - 2) n = Inr s))
   \<and> GenEigsBase_ctor n mk_fac 0 ncv = Inl InvalidArgument
   \<and> (nev > n - 2 \<longrightarrow> GenEigsBase_ctor n mk_fac nev ncv = Inl InvalidArgument)
   \<and> (ncv < nev + 2 \<longrightarrow> GenEigsBase_ctor n mk_fac nev ncv = Inl InvalidArgument)"
  by (auto simp: ctor_cases valid_params_def)

theorem ctor_validation_witness:
  "(3::int) \<le> 10 \<and> (\<exists>s. GenEigsBase_ctor 10 (\<lambda>k. ()) (10 - 2) 10 = Inr s)
   \<and> (9::int) > 10 - 2 \<and> GenEigsBase_ctor 10 (\<lambda>k. ()) 9 10 = Inl InvalidArgument
   \<and> (10::int) < 9 + 2 \<and> GenEigsBase_ctor 10 (\<lambda>k. ()) 9 10 = Inl InvalidArgument"
  using ctor_validation [of 10 "\<lambda>k. ()" 9 10]
  by simp

section \<open>Properties of the restart\<close>

lemma std_norm_cmod: "std_norm v = (cmod v)\<^sup>2"
  unfolding std_norm_def cmod_power2 by (simp add: power2_eq_square)

lemma cnj_swap: "(v = cnj w) = (w = cnj v)"
  by (metis complex_cnj_cnj)

text \<open>
  The loop of the real algorithm from a position \<open>j \<ge> 0\<close>: it either reads the
  coefficient after the last one, or it performs the steps of the specification.
\<close>

lemma run_real_loop_spec:
  "run_real_loop E v (int j) st =
     (if unpaired_last v j then Inl IndexOutOfRange
      else Inr (foldl (apply_step E) st (shifts_real v j)))"
proof (induction v j arbitrary: st rule: shifts_real.induct)
  case (1 v i)
  show ?case
  proof (cases "i < length v")
    case False
    then show ?thesis
      by (simp add: run_real_loop.simps[of E v "int i"] shifts_real.simps[of v i]
          unpaired_last.simps[of v i])
  next
    case True
    show ?thesis
    proof (cases "Im (v ! i) \<noteq> 0 \<and> i + 1 < length v \<and> v ! (i + 1) = cnj (v ! i)")
      case pair: True
      have step: "run_real_loop E v (int i) st =
          run_real_loop E v (int (i + 2)) (double_shift E (2 * Re (v ! i)) ((cmod (v ! i))\<^sup>2) st)"
        using True pair
        by (simp add: run_real_loop.simps[of E v "int i"] coeff_def is_complex_def is_conj_def
            std_norm_cmod nat_add_distrib add.commute)
      show ?thesis
        using True pair
        by (simp only: step "1.IH"(1)[OF True pair])
           (simp add: shifts_real.simps[of v i] unpaired_last.simps[of v i])
    next
      case single: False
      have step: "run_real_loop E v (int i) st =
          (if Im (v ! i) \<noteq> 0 \<and> \<not> i + 1 < length v then Inl IndexOutOfRange
           else run_real_loop E v (int (i + 1)) (real_shift E (Re (v ! i)) st))"
        using True single
        by (auto simp add: run_real_loop.simps[of E v "int i"] coeff_def is_complex_def is_conj_def
            nat_add_distrib add.commute cnj_swap[of "v ! i"])
      show ?thesis
        using True single
        by (simp only: step "1.IH"(2)[OF True single])
           (auto simp add: shifts_real.simps[of v i] unpaired_last.simps[of v i])
    qed
  qed
qed

lemma run_real_loop_negative:
  "k < 0 \<Longrightarrow> run_real_loop E v k st = Inl IndexOutOfRange"
  by (simp add: run_real_loop.simps[of E v k] coeff_def)

lemma run_complex_loop_spec:
  "run_complex_loop E v (int j) st = Inr (foldl (apply_step E) st (shifts_complex v j))"
proof (induction "length v - j" arbitrary: j st)
  case 0
  then show ?case
    by (simp add: run_complex_loop.simps[of E v "int j"] shifts_complex_def)
next
  case (Suc n)
  then have lt: "j < length v" by simp
  have n: "n = length v - Suc j" using Suc.hyps(2) by simp
  have step: "run_complex_loop E v (int j) st =
      run_complex_loop E v (int (Suc j)) (complex_shift E (v ! j) st)"
    using lt by (simp add: run_complex_loop.simps[of E v "int j"] coeff_def add.commute)
  show ?case
    using lt by (simp only: step Suc.hyps(1)[OF n])
      (simp add: shifts_complex_def Cons_nth_drop_Suc[symmetric])
qed

lemma run_complex_loop_negative:
  "k < 0 \<Longrightarrow> run_complex_loop E v k st = Inl IndexOutOfRange"
  by (simp add: run_complex_loop.simps[of E v k] coeff_def)

text \<open>When the real algorithm reads outside of the vector of the Ritz values.\<close>

lemma run_real_out_of_range:
  "(run_real E ritz_val k fac Q = Inl IndexOutOfRange)
     = (k < 0 \<or> unpaired_last ritz_val (nat k))"
  using run_real_loop_spec[of E ritz_val "nat k" "(fac, Q)"]
    run_real_loop_negative[of k E ritz_val "(fac, Q)"]
  by (cases "k < 0") (auto simp add: run_real_def)

lemma shifts_real_example:
  "shifts_real [3, Complex 1 2, Complex 1 (- 2), 7] 0
     = [SingleShiftStep 3, DoubleShiftStep 2 5, SingleShiftStep 7]"
  by (simp add: shifts_real.simps complex_eq_iff cmod_power2)

lemma unpaired_last_example: "\<not> unpaired_last [3, Complex 1 2, Complex 1 (- 2), 7] 0"
  by (simp add: unpaired_last.simps complex_eq_iff)

text \<open>
  The loops against the schedule of the specification. From a start \<open>k \<ge> 0\<close> from which
  the loop of the real algorithm does not come to the last position with a value that
  is not real, the restart for a real scalar performs exactly the steps of the
  specification, in their order: at a value that is not real and is followed by its
  exact conjugate one double shift step with the sum \<open>2 Re(\<theta>)\<close> and the product
  \<open>|\<theta>|\<^sup>2\<close>, going on two positions further, and otherwise one single shift step with the
  real part as the shift, going on one position further. The restart for a complex
  scalar performs one step with a complex shift for each Ritz value from \<open>k\<close> on, with
  that value as the shift. What the real algorithm does in the remaining case is the
  lemma \<open>run_real_out_of_range\<close> above.
\<close>

theorem run_follows_schedule:
  "(0 \<le> k \<and> \<not> unpaired_last ritz_val (nat k) \<longrightarrow>
      run_real E ritz_val k fac Q
        = Inr (foldl (apply_step E) (fac, Q) (shifts_real ritz_val (nat k))))
   \<and> (0 \<le> k \<longrightarrow>
      run_complex E ritz_val k fac Q
        = Inr (foldl (apply_step E) (fac, Q) (shifts_complex ritz_val (nat k))))"
  using run_real_loop_spec[of E ritz_val "nat k" "(fac, Q)"]
    run_complex_loop_spec[of E ritz_val "nat k" "(fac, Q)"]
  by (auto simp add: run_real_def run_complex_def)

theorem run_follows_schedule_witness:
  "(0::int) \<le> 0 \<and> \<not> unpaired_last [3, Complex 1 2, Complex 1 (- 2), 7] (nat 0)
   \<and> run_real QRlog [3, Complex 1 2, Complex 1 (- 2), 7] 0 [] ()
        = Inr ([SingleShiftStep 3, DoubleShiftStep 2 5, SingleShiftStep 7], ())
   \<and> run_complex QRlog [3, Complex 1 2] 0 [] ()
        = Inr ([ComplexShiftStep 3, ComplexShiftStep (Complex 1 2)], ())"
  using run_follows_schedule[of 0 "[3, Complex 1 2, Complex 1 (- 2), 7]" QRlog "[]" "()"]
    run_follows_schedule[of 0 "[3, Complex 1 2]" QRlog "[]" "()"]
  by (simp add: shifts_real_example unpaired_last_example shifts_complex_def QRlog_def)

text \<open>
  Claim C9 says that no read of the Ritz values is outside of the vector. The vector
  \<open>[1 + 2i, 3, 1 - 2i]\<close> has its conjugate pair apart, as an order by the imaginary part
  leaves it. From the start \<open>k = 1\<close> the loop makes a single shift step for the value
  \<open>3\<close> and comes to the last position \<open>i = 2\<close>, whose value is not real; the test for
  a conjugate pair then reads \<^verbatim>\<open>ritz_val[3]\<close>, outside of the three coefficients.
\<close>

theorem run_reads_past_end:
  "run_real QRlog [Complex 1 2, 3, Complex 1 (- 2)] 1 [] () = Inl IndexOutOfRange"
  by (simp add: run_real_def run_real_loop.simps coeff_def is_complex_def QRlog_def)

section \<open>Properties of the convergence test\<close>

lemma eps23_example: "(1 / 8 :: real) powr (2 / 3) = 1 / 4"
proof -
  have "(1 / 8 :: real) = (1 / 2) powr 3" by (simp add: power3_eq_cube)
  then have "(1 / 8 :: real) powr (2 / 3) = ((1 / 2) powr 3) powr (2 / 3)" by (simp only:)
  also have "\<dots> = (1 / 2) powr 2" by (simp only: powr_powr) simp
  also have "\<dots> = 1 / 4" by (simp add: power2_eq_square)
  finally show ?thesis .
qed

lemma count_true_card: "count_true conv = int (card {i. i < length conv \<and> conv ! i})"
  by (simp add: count_true_def length_filter_conv_card)

text \<open>
  Claim C2. The convergence test looks at the first \<open>nev\<close> Ritz values. It marks the
  index \<open>i\<close> exactly when \<open>|ritz_est[i]| * f_norm < tol * max(eps\<^bsup>2/3\<^esup>, |ritz_val[i]|)\<close>,
  stores the marks as the flags of the solver, and returns the number of the marked
  indices.
\<close>

theorem num_converged_test:
  assumes "0 \<le> m_nev s" and "m_nev s \<le> int (length (m_ritz_val s))"
    and "m_nev s \<le> int (length (m_ritz_est s))"
  shows "\<exists>conv. num_converged E tol s = Inr (count_true conv, s\<lparr> m_ritz_conv := conv \<rparr>)
      \<and> length conv = nat (m_nev s)
      \<and> (\<forall>i < nat (m_nev s). conv ! i
            = (cmod (m_ritz_est s ! i) * f_norm E (m_fac s)
                 < tol * max (epsilon E powr (2 / 3)) (cmod (m_ritz_val s ! i))))
      \<and> count_true conv = int (card {i. i < nat (m_nev s) \<and> conv ! i})"
proof -
  define conv where "conv = map2 (\<lambda>r t. r < t)
      (map (\<lambda>x. x * f_norm E (m_fac s)) (map cmod (take (nat (m_nev s)) (m_ritz_est s))))
      (map (\<lambda>x. tol * x) (map (\<lambda>a. max a (epsilon E powr (2 / 3)))
         (map cmod (take (nat (m_nev s)) (m_ritz_val s)))))"
  have len: "length conv = nat (m_nev s)"
    using assms by (simp add: conv_def)
  have run: "num_converged E tol s = Inr (count_true conv, s\<lparr> m_ritz_conv := conv \<rparr>)"
    using assms by (simp add: num_converged_def head_def bindE_def Let_def conv_def)
  have nth: "conv ! i = (cmod (m_ritz_est s ! i) * f_norm E (m_fac s)
                 < tol * max (epsilon E powr (2 / 3)) (cmod (m_ritz_val s ! i)))"
    if "i < nat (m_nev s)" for i
    using that assms by (simp add: conv_def max.commute)
  show ?thesis
    using run len nth count_true_card[of conv] by (intro exI[of _ conv]) simp
qed

theorem num_converged_test_witness:
  "(0::int) \<le> m_nev solver6 \<and> m_nev solver6 \<le> int (length (m_ritz_val solver6))
   \<and> m_nev solver6 \<le> int (length (m_ritz_est solver6))
   \<and> num_converged Env0 (1 / 10) solver6 = Inr (1, solver6\<lparr> m_ritz_conv := [True, False] \<rparr>)"
proof -
  have h: "(0::int) \<le> m_nev solver6" "m_nev solver6 \<le> int (length (m_ritz_val solver6))"
    "m_nev solver6 \<le> int (length (m_ritz_est solver6))"
    by (simp_all add: solver6_def)
  obtain conv where c: "num_converged Env0 (1 / 10) solver6
        = Inr (count_true conv, solver6\<lparr> m_ritz_conv := conv \<rparr>)"
      "length conv = nat (m_nev solver6)"
      "\<forall>i < nat (m_nev solver6). conv ! i
            = (cmod (m_ritz_est solver6 ! i) * f_norm Env0 (m_fac solver6)
                 < 1 / 10 * max (epsilon Env0 powr (2 / 3)) (cmod (m_ritz_val solver6 ! i)))"
    using num_converged_test[OF h, of Env0 "1 / 10"] by blast
  have l2: "length conv = 2" using c(2) by (simp add: solver6_def)
  have "conv ! 0 = True" "conv ! 1 = False"
    using c(3) by (simp_all add: solver6_def Env0_def eps23_example)
  with l2 have "conv = [True, False]"
    by (cases conv; cases "tl conv"; cases "tl (tl conv)") auto
  with c(1) h show ?thesis by (simp add: count_true_def)
qed

section \<open>Properties of the adjusted number of retained Ritz values\<close>

lemma cdiv_nonneg: "0 \<le> a \<Longrightarrow> 0 < b \<Longrightarrow> cdiv a b = a div b"
  by (cases "a = 0") (simp_all add: cdiv_def)

lemma near_zero_loop_count:
  "i \<le> n \<Longrightarrow> n \<le> length est \<Longrightarrow>
   near_zero_loop near0 est (int n) (int i) acc
     = Inr (acc + int (length (filter (\<lambda>j. cmod (est ! j) < near0) [i..<n])))"
proof (induction "n - i" arbitrary: i acc)
  case 0
  then show ?case by (subst near_zero_loop.simps) simp
next
  case (Suc d)
  then have lt: "i < n" and d: "d = n - Suc i" and le: "Suc i \<le> n" by simp_all
  have step: "near_zero_loop near0 est (int n) (int i) acc =
      near_zero_loop near0 est (int n) (int (Suc i))
        (if cmod (est ! i) < near0 then acc + 1 else acc)"
    using lt Suc.prems
    by (simp add: near_zero_loop.simps[of near0 est "int n" "int i"] coeff_def add.commute)
  show ?case
    using lt by (simp only: step Suc.hyps(1)[OF d le Suc.prems(2)]) (simp add: upt_conv_Cons)
qed

text \<open>
  Claim C3. In a solver whose parameters satisfy \<open>1 \<le> nev\<close> and \<open>nev + 2 \<le> ncv\<close> (as the
  constructor demands) and whose Ritz vectors have the length \<open>ncv\<close>,
  \<^verbatim>\<open>nev_adjusted(nconv)\<close> returns, without reading outside of a vector, the number that
  the recipe of the specification gives: start at \<open>nev\<close>; add one for every index in
  \<open>[nev, ncv)\<close> whose estimate is smaller than ten times the smallest positive
  normalised number; add \<open>min(nconv, (ncv - current) / 2)\<close>; replace a result \<open>1\<close> by
  \<open>ncv / 2\<close> if \<open>ncv \<ge> 6\<close> and by \<open>2\<close> if \<open>ncv > 3\<close>; bound it by \<open>ncv - 2\<close>; add one
  more if the Ritz value before the result is not real and the Ritz value at the
  result is its exact conjugate.
\<close>

theorem nev_adjusted_recipe:
  assumes "1 \<le> m_nev s" and "m_nev s + 2 \<le> m_ncv s"
    and "length (m_ritz_val s) = nat (m_ncv s)" and "length (m_ritz_est s) = nat (m_ncv s)"
    and "0 \<le> nconv"
  shows "nev_adjusted E s nconv =
     Inr (int (nev_adjusted_spec (tmin E) (m_ritz_val s) (m_ritz_est s)
                (nat (m_nev s)) (nat (m_ncv s)) (nat nconv)))"
proof -
  define nev ncv nc where "nev = nat (m_nev s)" and "ncv = nat (m_ncv s)" and "nc = nat nconv"
  have ints: "m_nev s = int nev" "m_ncv s = int ncv" "nconv = int nc"
    using assms by (simp_all add: nev_def ncv_def nc_def)
  have bounds: "1 \<le> nev" "nev + 2 \<le> ncv"
    using assms by (simp_all add: nev_def ncv_def)
  have lens: "length (m_ritz_val s) = ncv" "length (m_ritz_est s) = ncv"
    using assms by (simp_all add: ncv_def)
  define cnt where "cnt = near_zero_count (tmin E) (m_ritz_est s) nev ncv"
  have cnt_le: "cnt \<le> ncv - nev"
    unfolding cnt_def near_zero_count_def
    using length_filter_le[of "\<lambda>i. cmod (m_ritz_est s ! i) < 10 * tmin E" "[nev..<ncv]"] by simp
  have loop: "near_zero_loop (tmin E * 10) (m_ritz_est s) (m_ncv s) (m_nev s) (m_nev s)
      = Inr (int (nev + cnt))"
    using near_zero_loop_count[of nev ncv "m_ritz_est s" "tmin E * 10" "int nev"] bounds lens
    by (simp add: ints cnt_def near_zero_count_def mult.commute)
  define a where "a = nev + cnt"
  define b where "b = a + min nc ((ncv - a) div 2)"
  define c where "c = (if b = 1 \<and> ncv \<ge> 6 then ncv div 2 else if b = 1 \<and> ncv > 3 then 2 else b)"
  define d where "d = min c (ncv - 2)"
  have a_le: "a \<le> ncv" using cnt_le bounds by (simp add: a_def)
  have a_ge: "1 \<le> a" using bounds by (simp add: a_def)
  have b_int: "int a + min (int nc) (cdiv (int ncv - int a) 2) = int b"
    using a_le by (simp add: b_def cdiv_nonneg zdiv_int of_nat_diff)
  have c_int: "(if int b = 1 \<and> int ncv \<ge> 6 then cdiv (int ncv) 2
                else if int b = 1 \<and> int ncv > 3 then 2 else int b) = int c"
    by (simp add: c_def cdiv_nonneg zdiv_int)
  have d_int: "(if int c > int ncv - 2 then int ncv - 2 else int c) = int d"
    using bounds by (auto simp add: d_def min_def)
  have b_ge: "1 \<le> b" using a_ge by (simp add: b_def)
  have c_ge: "1 \<le> c" using b_ge bounds by (auto simp add: c_def)
  have d_ge: "1 \<le> d" using c_ge bounds by (simp add: d_def)
  have d_lt: "d < ncv" using bounds by (simp add: d_def)
  have r1: "coeff (m_ritz_val s) (int d - 1) = Inr (m_ritz_val s ! (d - 1))"
    using d_ge d_lt lens by (simp add: coeff_def nat_diff_distrib')
  have r2: "coeff (m_ritz_val s) (int d) = Inr (m_ritz_val s ! d)"
    using d_lt lens by (simp add: coeff_def)
  have spec: "nev_adjusted_spec (tmin E) (m_ritz_val s) (m_ritz_est s) nev ncv nc
      = (if Im (m_ritz_val s ! (d - 1)) \<noteq> 0 \<and> m_ritz_val s ! d = cnj (m_ritz_val s ! (d - 1))
         then d + 1 else d)"
    unfolding nev_adjusted_spec_def Let_def d_def c_def b_def a_def cnt_def by (rule refl)
  have code: "nev_adjusted E s nconv
      = (if is_complex (m_ritz_val s ! (d - 1))
         then (if is_conj (m_ritz_val s ! (d - 1)) (m_ritz_val s ! d) then Inr (int d + 1) else Inr (int d))
         else Inr (int d))"
    apply (simp only: nev_adjusted_def Let_def)
    apply (simp only: loop)
    apply (simp only: bindE_def sum.case ints a_def[symmetric])
    apply (simp only: b_int c_int d_int r1 r2 sum.case)
    done
  show ?thesis
    unfolding code nev_def[symmetric] ncv_def[symmetric] nc_def[symmetric] spec
    by (auto simp add: is_complex_def is_conj_def cnj_swap[of "m_ritz_val s ! (d - 1)"])
qed

theorem nev_adjusted_recipe_witness:
  "1 \<le> m_nev solver6 \<and> m_nev solver6 + 2 \<le> m_ncv solver6
   \<and> length (m_ritz_val solver6) = nat (m_ncv solver6)
   \<and> length (m_ritz_est solver6) = nat (m_ncv solver6) \<and> (0::int) \<le> 1
   \<and> nev_adjusted Env0 solver6 1 = Inr 5"
proof -
  have h: "1 \<le> m_nev solver6" "m_nev solver6 + 2 \<le> m_ncv solver6"
    "length (m_ritz_val solver6) = nat (m_ncv solver6)"
    "length (m_ritz_est solver6) = nat (m_ncv solver6)" "(0::int) \<le> 1"
    by (simp_all add: solver6_def)
  have "nev_adjusted_spec (tmin Env0) (m_ritz_val solver6) (m_ritz_est solver6)
          (nat (m_nev solver6)) (nat (m_ncv solver6)) (nat 1) = 5"
    by (simp add: nev_adjusted_spec_def near_zero_count_def solver6_def Env0_def upt_rec
        complex_eq_iff)
  with nev_adjusted_recipe[OF h, of Env0] h show ?thesis by simp
qed

section \<open>Properties of the eigen solver for upper Hessenberg matrices\<close>

text \<open>A call of \<^verbatim>\<open>compute\<close> that throws leaves the flag \<^verbatim>\<open>m_computed\<close> as it was.\<close>

lemma compute_real_throws:
  "snd (compute_real K mat st) \<noteq> None \<Longrightarrow>
     re_computed (fst (compute_real K mat st)) = re_computed st"
  by (auto simp add: compute_real_def Let_def split: sum.splits prod.splits if_splits)

lemma compute_complex_throws:
  "snd (compute_complex K mat st) \<noteq> None \<Longrightarrow>
     cx_computed (fst (compute_complex K mat st)) = cx_computed st"
  by (auto simp add: compute_complex_def Let_def split: sum.splits prod.splits if_splits option.splits)

text \<open>
  Claim C6. In both specialisations, \<^verbatim>\<open>eigenvalues()\<close> and \<^verbatim>\<open>eigenvectors()\<close> throw
  \<^verbatim>\<open>std::logic_error\<close> on an object whose computation has not completed, in particular
  on a new object. \<^verbatim>\<open>compute\<close> on a matrix that is not square throws
  \<^verbatim>\<open>std::invalid_argument\<close> and changes nothing in the object (and the constructor from
  such a matrix throws the same). Whenever \<^verbatim>\<open>compute\<close> throws on an object whose flag is
  not set, the flag is not set afterwards, and both queries still throw
  \<^verbatim>\<open>std::logic_error\<close>.
\<close>

theorem eigen_errors:
  "(\<not> re_computed rst \<longrightarrow>
      eigenvalues_real rst = Inl LogicError \<and> eigenvectors_real rst = Inl LogicError)
   \<and> (\<not> cx_computed cst \<longrightarrow>
      eigenvalues_complex cst = Inl LogicError \<and> eigenvectors_complex cst = Inl LogicError)
   \<and> eigenvalues_real RealEigen_new = Inl LogicError
   \<and> eigenvectors_real RealEigen_new = Inl LogicError
   \<and> eigenvalues_complex ComplexEigen_new = Inl LogicError
   \<and> eigenvectors_complex ComplexEigen_new = Inl LogicError
   \<and> (rows rmat \<noteq> cols rmat \<longrightarrow>
        compute_real RK rmat rst = (rst, Some InvalidArgument)
        \<and> RealEigen_of RK rmat = Inl InvalidArgument)
   \<and> (rows cmat \<noteq> cols cmat \<longrightarrow>
        compute_complex CK cmat cst = (cst, Some InvalidArgument)
        \<and> ComplexEigen_of CK cmat = Inl InvalidArgument)
   \<and> (snd (compute_real RK rmat rst) \<noteq> None \<and> \<not> re_computed rst \<longrightarrow>
        eigenvalues_real (fst (compute_real RK rmat rst)) = Inl LogicError
        \<and> eigenvectors_real (fst (compute_real RK rmat rst)) = Inl LogicError)
   \<and> (snd (compute_complex CK cmat cst) \<noteq> None \<and> \<not> cx_computed cst \<longrightarrow>
        eigenvalues_complex (fst (compute_complex CK cmat cst)) = Inl LogicError
        \<and> eigenvectors_complex (fst (compute_complex CK cmat cst)) = Inl LogicError)"
  using compute_real_throws[of RK rmat rst] compute_complex_throws[of CK cmat cst]
  by (simp add: eigenvalues_real_def eigenvectors_real_def eigenvalues_complex_def
      eigenvectors_complex_def RealEigen_new_def ComplexEigen_new_def
      compute_real_def compute_complex_def RealEigen_of_def ComplexEigen_of_def)

theorem eigen_errors_witness:
  "\<not> re_computed RealEigen_new \<and> \<not> cx_computed ComplexEigen_new
   \<and> rows rmat23 \<noteq> cols rmat23 \<and> rows cmat23 \<noteq> cols cmat23
   \<and> compute_real RealKernels0 rmat23 RealEigen_new = (RealEigen_new, Some InvalidArgument)
   \<and> compute_complex ComplexKernels0 cmat23 ComplexEigen_new = (ComplexEigen_new, Some InvalidArgument)
   \<and> snd (compute_real RealKernels0 rmat23 RealEigen_new) \<noteq> None
   \<and> snd (compute_complex ComplexKernels0 cmat23 ComplexEigen_new) \<noteq> None
   \<and> eigenvalues_real (fst (compute_real RealKernels0 rmat23 RealEigen_new)) = Inl LogicError
   \<and> eigenvectors_real (fst (compute_real RealKernels0 rmat23 RealEigen_new)) = Inl LogicError
   \<and> eigenvalues_complex (fst (compute_complex ComplexKernels0 cmat23 ComplexEigen_new)) = Inl LogicError
   \<and> eigenvectors_complex (fst (compute_complex ComplexKernels0 cmat23 ComplexEigen_new)) = Inl LogicError"
proof -
  have h: "\<not> re_computed RealEigen_new" "\<not> cx_computed ComplexEigen_new"
    "rows rmat23 \<noteq> cols rmat23" "rows cmat23 \<noteq> cols cmat23"
    by (simp_all add: RealEigen_new_def ComplexEigen_new_def rmat23_def cmat23_def cols_def)
  show ?thesis
    using h eigen_errors[of RealEigen_new ComplexEigen_new rmat23 RealKernels0 cmat23 ComplexKernels0]
    by simp
qed

text \<open>
  Claim C10 says that the divisor of the scaling in the real \<^verbatim>\<open>compute\<close> is never zero.
  The zero matrix of dimension two is square, its largest absolute coefficient is
  zero, and \<^verbatim>\<open>mat / scale\<close> divides by it: no coefficient of the matrix that is handed
  to the Schur reduction is a number.
\<close>

theorem zero_matrix_scale:
  "rows zero22 = cols zero22 \<and> max_abs_coeff zero22 = Inr 0
   \<and> divide_matrix zero22 0 = \<lparr> rows = 2, colvecs = [[None, None], [None, None]] \<rparr>"
  by (simp add: zero22_def cols_def max_abs_coeff_def divide_matrix_def)

subsection \<open>The sorting of the complex specialisation\<close>

text \<open>
  \<^verbatim>\<open>minCoeff\<close> returns the position of a smallest coefficient, and the swap of two
  coefficients in range is the exchange of the two entries of the list.
\<close>

lemma minCoeff_visit_spec:
  "k < j \<Longrightarrow> \<exists>m. minCoeff_visit xs (int j) res (int k) = int m \<and>
     ((m = k \<and> (\<forall>y\<in>set xs. res \<le> y))
      \<or> (j \<le> m \<and> m < j + length xs \<and> xs ! (m - j) \<le> res \<and> (\<forall>y\<in>set xs. xs ! (m - j) \<le> y)))"
proof (induction xs arbitrary: j res k)
  case Nil
  then show ?case by simp
next
  case (Cons x xs)
  have sj: "int j + 1 = int (Suc j)" by simp
  show ?case
  proof (cases "x < res")
    case True
    from Cons.IH[of j "Suc j" x] obtain m where
      m: "minCoeff_visit xs (int (Suc j)) x (int j) = int m"
         "(m = j \<and> (\<forall>y\<in>set xs. x \<le> y))
          \<or> (Suc j \<le> m \<and> m < Suc j + length xs \<and> xs ! (m - Suc j) \<le> x
              \<and> (\<forall>y\<in>set xs. xs ! (m - Suc j) \<le> y))"
      by auto
    have run: "minCoeff_visit (x # xs) (int j) res (int k) = int m"
      using True m(1) by (simp only: minCoeff_visit.simps sj) simp
    from m(2) have "j \<le> m \<and> m < j + length (x # xs) \<and> (x # xs) ! (m - j) \<le> res
        \<and> (\<forall>y\<in>set (x # xs). (x # xs) ! (m - j) \<le> y)"
    proof
      assume "m = j \<and> (\<forall>y\<in>set xs. x \<le> y)"
      then show ?thesis using True by auto
    next
      assume a: "Suc j \<le> m \<and> m < Suc j + length xs \<and> xs ! (m - Suc j) \<le> x
              \<and> (\<forall>y\<in>set xs. xs ! (m - Suc j) \<le> y)"
      then have "(x # xs) ! (m - j) = xs ! (m - Suc j)"
        by (simp add: nth_Cons')
      with a True show ?thesis by auto
    qed
    with run show ?thesis by blast
  next
    case False
    from Cons.IH[of k "Suc j" res] Cons.prems obtain m where
      m: "minCoeff_visit xs (int (Suc j)) res (int k) = int m"
         "(m = k \<and> (\<forall>y\<in>set xs. res \<le> y))
          \<or> (Suc j \<le> m \<and> m < Suc j + length xs \<and> xs ! (m - Suc j) \<le> res
              \<and> (\<forall>y\<in>set xs. xs ! (m - Suc j) \<le> y))"
      by auto
    have run: "minCoeff_visit (x # xs) (int j) res (int k) = int m"
      using False m(1) by (simp only: minCoeff_visit.simps sj) simp
    from m(2) have "(m = k \<and> (\<forall>y\<in>set (x # xs). res \<le> y))
      \<or> (j \<le> m \<and> m < j + length (x # xs) \<and> (x # xs) ! (m - j) \<le> res
        \<and> (\<forall>y\<in>set (x # xs). (x # xs) ! (m - j) \<le> y))"
    proof
      assume "m = k \<and> (\<forall>y\<in>set xs. res \<le> y)"
      then show ?thesis using False by auto
    next
      assume a: "Suc j \<le> m \<and> m < Suc j + length xs \<and> xs ! (m - Suc j) \<le> res
              \<and> (\<forall>y\<in>set xs. xs ! (m - Suc j) \<le> y)"
      then have "(x # xs) ! (m - j) = xs ! (m - Suc j)"
        by (simp add: nth_Cons')
      with a False show ?thesis by auto
    qed
    with run show ?thesis by blast
  qed
qed

lemma minCoeff_index_min:
  "xs \<noteq> [] \<Longrightarrow> \<exists>m. minCoeff_index xs = Inr (int m) \<and> m < length xs \<and> (\<forall>y\<in>set xs. xs ! m \<le> y)"
proof (cases xs)
  case Nil
  assume "xs \<noteq> []"
  with Nil show ?thesis by simp
next
  case (Cons x ys)
  from minCoeff_visit_spec[of 0 1 ys x] obtain m where
    m: "minCoeff_visit ys 1 x 0 = int m"
       "(m = 0 \<and> (\<forall>y\<in>set ys. x \<le> y))
        \<or> (1 \<le> m \<and> m < 1 + length ys \<and> ys ! (m - 1) \<le> x \<and> (\<forall>y\<in>set ys. ys ! (m - 1) \<le> y))"
    by auto
  from m(2) have "m < length (x # ys) \<and> (\<forall>y\<in>set (x # ys). (x # ys) ! m \<le> y)"
  proof
    assume "m = 0 \<and> (\<forall>y\<in>set ys. x \<le> y)"
    then show ?thesis by auto
  next
    assume a: "1 \<le> m \<and> m < 1 + length ys \<and> ys ! (m - 1) \<le> x \<and> (\<forall>y\<in>set ys. ys ! (m - 1) \<le> y)"
    then have "(x # ys) ! m = ys ! (m - 1)" by (simp add: nth_Cons')
    with a show ?thesis by auto
  qed
  with m(1) Cons show ?thesis by simp
qed

lemma swap_coeff_eq:
  "a < length v \<Longrightarrow> b < length v \<Longrightarrow>
     swap_coeff v (int a) (int b) = Inr (v[a := v ! b, b := v ! a])"
  by (simp add: swap_coeff_def coeff_def set_coeff_def bindE_def)

lemma tail_drop:
  "j \<le> length v \<Longrightarrow> tail v (int (length v) - int j) = Inr (drop j v)"
  by (simp add: tail_def nat_diff_distrib')

lemma sort_loop_sorted:
  assumes "length vec = length ev" and "j \<le> length ev"
    and "\<forall>a b. a < b \<and> b < length ev \<and> a < j \<longrightarrow> cmod (ev ! a) \<le> cmod (ev ! b)"
  shows "\<exists>ev' vec'. sort_loop True (int (length ev)) (int j) (ev, vec) = Inr (ev', vec')
      \<and> sorted (map cmod ev') \<and> mset (zip ev' vec') = mset (zip ev vec)
      \<and> length ev' = length ev \<and> length vec' = length vec"
  using assms
proof (induction "length ev - j" arbitrary: ev vec j)
  case 0
  then have j: "j = length ev" by simp
  have run: "sort_loop True (int (length ev)) (int j) (ev, vec) = Inr (ev, vec)"
    using j by (subst sort_loop.simps) simp
  have "sorted (map cmod ev)"
    using "0.prems"(3) j by (simp add: sorted_iff_nth_mono_less)
  with run show ?case by simp
next
  case (Suc d)
  let ?n = "length ev"
  from Suc.hyps(2) have lt: "j < ?n" by simp
  have tl: "tail (map cmod ev) (int ?n - int j) = Inr (drop j (map cmod ev))"
    using tail_drop[of j "map cmod ev"] lt by simp
  have ne: "drop j (map cmod ev) \<noteq> []" using lt by simp
  from minCoeff_index_min[OF ne] obtain m where
    m: "minCoeff_index (drop j (map cmod ev)) = Inr (int m)" "m < ?n - j"
       "\<forall>y\<in>set (drop j (map cmod ev)). drop j (map cmod ev) ! m \<le> y"
    by auto
  have mj: "m + j < ?n" using m(2) by simp
  have least: "cmod (ev ! (m + j)) \<le> cmod (ev ! b)" if "j \<le> b" "b < ?n" for b
  proof -
    have "drop j (map cmod ev) ! (b - j) \<in> set (drop j (map cmod ev))"
      using that by (intro nth_mem) simp
    with m(3) have "drop j (map cmod ev) ! m \<le> drop j (map cmod ev) ! (b - j)" by blast
    with that mj show ?thesis by (simp add: add.commute)
  qed
  show ?case
  proof (cases "m = 0")
    case True
    have step: "sort_loop True (int ?n) (int j) (ev, vec)
        = sort_loop True (int ?n) (int (Suc j)) (ev, vec)"
      using lt True by (subst sort_loop.simps) (simp add: tl m(1) bindE_def add.commute)
    have inv: "\<forall>a b. a < b \<and> b < ?n \<and> a < Suc j \<longrightarrow> cmod (ev ! a) \<le> cmod (ev ! b)"
    proof (intro allI impI)
      fix a b assume ab: "a < b \<and> b < ?n \<and> a < Suc j"
      show "cmod (ev ! a) \<le> cmod (ev ! b)"
      proof (cases "a < j")
        case True
        with ab Suc.prems(3) show ?thesis by blast
      next
        case False
        with ab have "a = j" by simp
        with least[of b] ab \<open>m = 0\<close> show ?thesis by simp
      qed
    qed
    have d: "d = ?n - Suc j" using Suc.hyps(2) by simp
    from Suc.hyps(1)[OF d Suc.prems(1) _ inv] lt step show ?thesis by simp
  next
    case False
    define ev1 where "ev1 = ev[m + j := ev ! j, j := ev ! (m + j)]"
    define vec1 where "vec1 = vec[j := vec ! (m + j), m + j := vec ! j]"
    have sw1: "swap_coeff ev (int j + int m) (int j) = Inr ev1"
      using swap_coeff_eq[of "m + j" ev j] mj lt by (simp add: ev1_def add.commute)
    have sw2: "swap_coeff vec (int j) (int j + int m) = Inr vec1"
      using swap_coeff_eq[of j vec "m + j"] mj lt Suc.prems(1) by (simp add: vec1_def add.commute)
    have step: "sort_loop True (int ?n) (int j) (ev, vec)
        = sort_loop True (int ?n) (int (Suc j)) (ev1, vec1)"
      using lt False
      by (subst sort_loop.simps) (simp add: tl m(1) bindE_def sw1 sw2 add.commute)
    have len1: "length ev1 = ?n" "length vec1 = length ev1"
      using Suc.prems(1) by (simp_all add: ev1_def vec1_def)
    have nth1: "ev1 ! c = (if c = j then ev ! (m + j) else if c = m + j then ev ! j else ev ! c)"
      if "c < ?n" for c
      using that by (simp add: ev1_def nth_list_update)
    have inv: "\<forall>a b. a < b \<and> b < length ev1 \<and> a < Suc j \<longrightarrow> cmod (ev1 ! a) \<le> cmod (ev1 ! b)"
    proof (intro allI impI)
      fix a b assume ab: "a < b \<and> b < length ev1 \<and> a < Suc j"
      then have b: "b < ?n" and a: "a < ?n" using len1 by simp_all
      show "cmod (ev1 ! a) \<le> cmod (ev1 ! b)"
      proof (cases "a < j")
        case True
        then have ea: "ev1 ! a = ev ! a" using nth1[OF a] False by simp
        have "\<exists>c. a < c \<and> c < ?n \<and> ev1 ! b = ev ! c"
        proof (cases "b = j")
          case bj: True
          then have "ev1 ! b = ev ! (m + j)" using nth1[OF b] by simp
          moreover have "a < m + j" using True by simp
          ultimately show ?thesis using mj by blast
        next
          case nbj: False
          show ?thesis
          proof (cases "b = m + j")
            case True
            then have "ev1 ! b = ev ! j" using nth1[OF b] nbj by simp
            then show ?thesis using \<open>a < j\<close> lt by blast
          next
            case False
            then have "ev1 ! b = ev ! b" using nth1[OF b] nbj by simp
            then show ?thesis using ab b by blast
          qed
        qed
        with Suc.prems(3) True ea show ?thesis by auto
      next
        case False
        with ab have aj: "a = j" by simp
        then have ea: "ev1 ! a = ev ! (m + j)" using nth1[OF a] by simp
        have bj: "b \<noteq> j" using ab aj by simp
        have "\<exists>c. j \<le> c \<and> c < ?n \<and> ev1 ! b = ev ! c"
        proof (cases "b = m + j")
          case True
          then have "ev1 ! b = ev ! j" using nth1[OF b] bj by simp
          then show ?thesis using lt by blast
        next
          case False
          then have "ev1 ! b = ev ! b" using nth1[OF b] bj by simp
          moreover have "j \<le> b" using ab aj by simp
          ultimately show ?thesis using b by blast
        qed
        with least ea show ?thesis by auto
      qed
    qed
    have zip1: "zip ev1 vec1 = (zip ev vec)[m + j := zip ev vec ! j, j := zip ev vec ! (m + j)]"
    proof -
      have "vec1 = vec[m + j := vec ! j, j := vec ! (m + j)]"
        using False by (simp add: vec1_def list_update_swap)
      then show ?thesis
        using mj lt Suc.prems(1) by (simp add: ev1_def zip_update)
    qed
    have ms: "mset (zip ev1 vec1) = mset (zip ev vec)"
      unfolding zip1 using mj lt Suc.prems(1) by (intro mset_swap) simp_all
    have d: "d = length ev1 - Suc j" using Suc.hyps(2) len1 by simp
    have sj: "Suc j \<le> length ev1" using lt len1 by simp
    from Suc.hyps(1)[OF d len1(2) sj inv] obtain ev' vec' where
      r: "sort_loop True (int (length ev1)) (int (Suc j)) (ev1, vec1) = Inr (ev', vec')"
         "sorted (map cmod ev')" "mset (zip ev' vec') = mset (zip ev1 vec1)"
         "length ev' = length ev1" "length vec' = length vec1"
      by blast
    with step len1 ms Suc.prems(1) show ?thesis by simp
  qed
qed

lemma sortEigenvalues_sorted:
  assumes "length (colvecs (cx_eivec st)) = length (cx_eivalues st)"
  shows "\<exists>st'. sortEigenvalues True st = Inr st'
      \<and> sorted (map cmod (cx_eivalues st'))
      \<and> mset (zip (cx_eivalues st') (colvecs (cx_eivec st')))
          = mset (zip (cx_eivalues st) (colvecs (cx_eivec st)))
      \<and> cx_computed st' = cx_computed st \<and> cx_n st' = cx_n st
      \<and> rows (cx_eivec st') = rows (cx_eivec st)"
proof -
  from sort_loop_sorted[of "colvecs (cx_eivec st)" "cx_eivalues st" 0] assms
  obtain ev' vec' where
    r: "sort_loop True (int (length (cx_eivalues st))) 0 (cx_eivalues st, colvecs (cx_eivec st))
          = Inr (ev', vec')"
       "sorted (map cmod ev')"
       "mset (zip ev' vec') = mset (zip (cx_eivalues st) (colvecs (cx_eivec st)))"
    by auto
  then show ?thesis
    by (simp add: sortEigenvalues_def bindE_def)
qed

text \<open>
  Claim C7, as amended. When the matrix is square, the Schur decomposition succeeds
  and the matrix of the eigenvectors has one column for each eigenvalue, the complex
  \<^verbatim>\<open>compute\<close> completes, the stored eigenvalues are in non-decreasing order of their
  magnitude, and the pairs of an eigenvalue and the column at its position are, as a
  multiset, the pairs of a diagonal entry of \<open>T\<close> and the column at its position before
  the sorting: every column stays with its eigenvalue. Nothing is said about the
  order among eigenvalues of equal magnitude.
\<close>

theorem compute_complex_sorted:
  assumes "rows mat = cols mat"
    and "complex_schur K mat (identity_matrix (rows mat) (cols mat)) = Some (T, U)"
    and "length (colvecs (triangular_eigenvectors K T U (diagonal T) (matrix_norm T)))
           = length (diagonal T)"
  shows "\<exists>st'. compute_complex K mat st = (st', None) \<and> cx_computed st'
      \<and> sorted (map cmod (cx_eivalues st'))
      \<and> mset (zip (cx_eivalues st') (colvecs (cx_eivec st')))
          = mset (zip (diagonal T)
                   (colvecs (triangular_eigenvectors K T U (diagonal T) (matrix_norm T))))"
proof -
  define st3 where "st3 = st\<lparr> cx_eivalues := diagonal T,
      cx_eivec := triangular_eigenvectors K T U (diagonal T) (matrix_norm T) \<rparr>"
  have "length (colvecs (cx_eivec st3)) = length (cx_eivalues st3)"
    using assms(3) by (simp add: st3_def)
  from sortEigenvalues_sorted[OF this] obtain st4 where
    s: "sortEigenvalues True st3 = Inr st4" "sorted (map cmod (cx_eivalues st4))"
       "mset (zip (cx_eivalues st4) (colvecs (cx_eivec st4)))
          = mset (zip (cx_eivalues st3) (colvecs (cx_eivec st3)))"
    by blast
  have "compute_complex K mat st = (st4\<lparr> cx_computed := True \<rparr>, None)"
    using assms(1,2) s(1) by (simp add: compute_complex_def Let_def st3_def)
  with s(2,3) show ?thesis by (simp add: st3_def)
qed

lemma compute_tri312:
  "compute_complex ComplexKernels0 tri312 ComplexEigen_new
     = (\<lparr> cx_n = 0, cx_eivec = \<lparr> rows = 3, colvecs = [[0, 1, 0], [0, 0, 1], [1, 0, 0]] \<rparr>,
          cx_eivalues = [1, 2, 3], cx_computed = True \<rparr>, None)"
  by (simp add: compute_complex_def tri312_def cols_def identity_matrix_def ComplexKernels0_def
      ComplexEigen_new_def diagonal_def upt_rec sortEigenvalues_def sort_loop.simps bindE_def
      tail_def swap_coeff_def coeff_def set_coeff_def Let_def)

theorem compute_complex_sorted_witness:
  "rows tri312 = cols tri312
   \<and> complex_schur ComplexKernels0 tri312 (identity_matrix (rows tri312) (cols tri312))
        = Some (tri312, identity_matrix 3 3)
   \<and> length (colvecs (triangular_eigenvectors ComplexKernels0 tri312 (identity_matrix 3 3)
        (diagonal tri312) (matrix_norm tri312))) = length (diagonal tri312)
   \<and> diagonal tri312 = [3, 1, 2]
   \<and> cx_eivalues (fst (compute_complex ComplexKernels0 tri312 ComplexEigen_new)) = [1, 2, 3]
   \<and> colvecs (cx_eivec (fst (compute_complex ComplexKernels0 tri312 ComplexEigen_new)))
        = [[0, 1, 0], [0, 0, 1], [1, 0, 0]]
   \<and> sorted (map cmod (cx_eivalues (fst (compute_complex ComplexKernels0 tri312 ComplexEigen_new))))"
proof -
  have h: "rows tri312 = cols tri312"
    "complex_schur ComplexKernels0 tri312 (identity_matrix (rows tri312) (cols tri312))
        = Some (tri312, identity_matrix 3 3)"
    "length (colvecs (triangular_eigenvectors ComplexKernels0 tri312 (identity_matrix 3 3)
        (diagonal tri312) (matrix_norm tri312))) = length (diagonal tri312)"
    "diagonal tri312 = [3, 1, 2]"
    by (simp_all add: tri312_def cols_def ComplexKernels0_def identity_matrix_def diagonal_def upt_rec)
  from compute_complex_sorted[OF h(1,2,3), of ComplexEigen_new] obtain st' where
    "compute_complex ComplexKernels0 tri312 ComplexEigen_new = (st', None)"
    "sorted (map cmod (cx_eivalues st'))"
    by blast
  then have "sorted (map cmod (cx_eivalues (fst (compute_complex ComplexKernels0 tri312 ComplexEigen_new))))"
    by simp
  with h show ?thesis by (simp add: compute_tri312)
qed

text \<open>
  Claim C7 as it is stated calls the sort stable. For the diagonal \<open>2, -2, 1\<close> a stable
  sort by magnitude gives \<open>1, 2, -2\<close>. The selection sort of the code exchanges the
  first entry with the smallest one and stores \<open>1, -2, 2\<close>: the two eigenvalues of
  magnitude \<open>2\<close> have changed their order.
\<close>

theorem sort_not_stable:
  "diagonal tri2m21 = [2, - 2, 1]
   \<and> sort_key cmod (diagonal tri2m21) = [1, 2, - 2]
   \<and> cx_eivalues (fst (compute_complex ComplexKernels0 tri2m21 ComplexEigen_new)) = [1, - 2, 2]
   \<and> snd (compute_complex ComplexKernels0 tri2m21 ComplexEigen_new) = None"
  by (simp add: compute_complex_def tri2m21_def cols_def identity_matrix_def ComplexKernels0_def
      ComplexEigen_new_def diagonal_def upt_rec sortEigenvalues_def sort_loop.simps bindE_def
      tail_def swap_coeff_def coeff_def set_coeff_def Let_def)

section \<open>Properties of the computation\<close>

text \<open>What the parts of \<^verbatim>\<open>compute\<close> leave unchanged.\<close>

lemma bindE_Inr: "(bindE m f = Inr y) = (\<exists>x. m = Inr x \<and> f x = Inr y)"
  by (cases m) (simp_all add: bindE_def)

lemma retrieve_ritzpair_keeps:
  "retrieve_ritzpair E selection s = Inr s' \<Longrightarrow>
     m_nev s' = m_nev s \<and> m_ncv s' = m_ncv s \<and> m_n s' = m_n s \<and> m_niter s' = m_niter s
     \<and> m_ritz_conv s' = m_ritz_conv s \<and> m_info s' = m_info s"
  by (auto simp add: retrieve_ritzpair_def bindE_Inr Let_def)

lemma restart_keeps:
  "restart E k selection s = Inr s' \<Longrightarrow>
     m_nev s' = m_nev s \<and> m_ncv s' = m_ncv s \<and> m_n s' = m_n s \<and> m_niter s' = m_niter s
     \<and> m_ritz_conv s' = m_ritz_conv s \<and> m_info s' = m_info s"
  by (auto simp add: restart_def bindE_Inr split: if_splits dest!: retrieve_ritzpair_keeps)

lemma num_converged_keeps:
  "num_converged E tol s = Inr (c, s') \<Longrightarrow>
     \<exists>conv. s' = s\<lparr> m_ritz_conv := conv \<rparr> \<and> c = count_true conv
       \<and> length conv = nat (m_nev s) \<and> 0 \<le> m_nev s"
  by (auto simp add: num_converged_def bindE_Inr Let_def head_def split: if_splits)

lemma sort_ritzpair_keeps:
  "sort_ritzpair E sort_rule s = Inr s' \<Longrightarrow>
     m_nev s' = m_nev s \<and> m_ncv s' = m_ncv s \<and> m_n s' = m_n s \<and> m_niter s' = m_niter s
     \<and> m_info s' = m_info s"
  by (auto simp add: sort_ritzpair_def bindE_Inr Let_def)

lemma restart_loop_step:
  "i < maxit \<Longrightarrow>
   restart_loop E selection tol maxit i nconv0 s =
     (case num_converged E tol s of
        Inl e \<Rightarrow> Inl e
      | Inr (nconv', s') \<Rightarrow>
          if nconv' \<ge> m_nev s' then Inr (i, nconv', s')
          else
            (case bindE (nev_adjusted E s' nconv') (\<lambda>nev_adj. restart E nev_adj selection s') of
               Inl e \<Rightarrow> Inl e
             | Inr s'' \<Rightarrow> restart_loop E selection tol maxit (i + 1) nconv' s''))"
  by (subst restart_loop.simps) simp

lemma restart_loop_done:
  "\<not> i < maxit \<Longrightarrow> restart_loop E selection tol maxit i nconv0 s = Inr (i, nconv0, s)"
  by (subst restart_loop.simps) simp

text \<open>The outcome of the restarting loop.\<close>

lemma restart_loop_outcome:
  "restart_loop E selection tol maxit i nconv0 s = Inr (i', nconv, s') \<Longrightarrow>
     m_nev s' = m_nev s \<and> m_ncv s' = m_ncv s \<and> m_niter s' = m_niter s \<and>
     (if i < maxit
      then i \<le> i' \<and> i' \<le> maxit
           \<and> (\<exists>st. num_converged E tol st = Inr (nconv, st\<lparr> m_ritz_conv := m_ritz_conv s' \<rparr>)
                  \<and> m_nev st = m_nev s)
           \<and> nconv = count_true (m_ritz_conv s')
           \<and> length (m_ritz_conv s') = nat (m_nev s)
           \<and> (nconv \<ge> m_nev s \<longrightarrow> i' < maxit)
           \<and> (nconv < m_nev s \<longrightarrow> i' = maxit)
      else i' = i \<and> nconv = nconv0 \<and> s' = s)"
proof (induction E selection tol maxit i nconv0 s rule: restart_loop.induct)
  case (1 E selection tol maxit i nconv0 s)
  show ?case
  proof (cases "i < maxit")
    case False
    with "1.prems" show ?thesis by (simp add: restart_loop_done)
  next
    case True
    from "1.prems" obtain c sc where
      nc: "num_converged E tol s = Inr (c, sc)"
      by (cases "num_converged E tol s") (auto simp add: restart_loop_step[OF True])
    from num_converged_keeps[OF nc] obtain conv where
      k: "sc = s\<lparr> m_ritz_conv := conv \<rparr>" "c = count_true conv"
         "length conv = nat (m_nev s)"
      by blast
    have nev_sc: "m_nev sc = m_nev s" and niter_sc: "m_niter sc = m_niter s"
      and conv_sc: "m_ritz_conv sc = conv" and ncv_sc: "m_ncv sc = m_ncv s"
      by (simp_all add: k(1))
    have test: "num_converged E tol s = Inr (c, s\<lparr> m_ritz_conv := conv \<rparr>)"
      using nc by (simp only: k(1))
    show ?thesis
    proof (cases "c \<ge> m_nev sc")
      case conv: True
      from "1.prems" have res: "i' = i" "nconv = c" "s' = sc"
        by (simp_all add: restart_loop_step[OF True] nc conv)
      have ex: "\<exists>st. num_converged E tol st = Inr (nconv, st\<lparr> m_ritz_conv := m_ritz_conv s' \<rparr>)
                  \<and> m_nev st = m_nev s"
        using test by (intro exI[of _ s]) (simp only: res conv_sc simp_thms)
      show ?thesis
        using True conv ex by (simp add: res nev_sc niter_sc conv_sc ncv_sc k(2,3))
    next
      case notconv: False
      from "1.prems" obtain s2 where
        r: "bindE (nev_adjusted E sc c) (\<lambda>nev_adj. restart E nev_adj selection sc) = Inr s2"
        and rec: "restart_loop E selection tol maxit (i + 1) c s2 = Inr (i', nconv, s')"
        by (cases "bindE (nev_adjusted E sc c) (\<lambda>nev_adj. restart E nev_adj selection sc)")
           (auto simp add: restart_loop_step[OF True] nc notconv)
      from r obtain k' where "restart E k' selection sc = Inr s2"
        unfolding bindE_Inr by blast
      from restart_keeps[OF this] have
        rk: "m_nev s2 = m_nev s" "m_niter s2 = m_niter s" "m_ritz_conv s2 = conv"
            "m_ncv s2 = m_ncv s"
        by (simp_all add: nev_sc niter_sc conv_sc ncv_sc)
      have nk: "\<not> m_nev sc \<le> c" using notconv .
      note ih = "1.IH"[OF True nc refl nk r rec]
      show ?thesis
      proof (cases "i + 1 < maxit")
        case more: True
        with ih True show ?thesis by (auto simp add: rk)
      next
        case last: False
        with ih have res: "i' = i + 1" "nconv = c" "s' = s2" by simp_all
        from last True have im: "i + 1 = maxit" by simp
        have ex: "\<exists>st. num_converged E tol st = Inr (nconv, st\<lparr> m_ritz_conv := m_ritz_conv s' \<rparr>)
                  \<and> m_nev st = m_nev s"
          using test by (intro exI[of _ s]) (simp only: res rk simp_thms)
        show ?thesis
          using True notconv ex im by (simp add: res rk nev_sc k(2,3))
      qed
    qed
  qed
qed

text \<open>The reads and writes of the copy loop of the final sorting, and the accessor.\<close>

lemma coeff_Inr: "(coeff v i = Inr x) = (0 \<le> i \<and> i < int (length v) \<and> x = v ! nat i)"
  by (auto simp add: coeff_def)

lemma set_coeff_Inr:
  "(set_coeff v i x = Inr v') = (0 \<le> i \<and> i < int (length v) \<and> v' = v[nat i := x])"
  by (auto simp add: set_coeff_def)

lemma sort_copy_done:
  "\<not> i < m_nev s \<Longrightarrow> sort_copy s ind i r = Inr r"
  by (cases r) (simp add: sort_copy.simps split: prod.splits)

lemma sort_copy_result:
  "sort_copy s ind (int j) (nv, nvec, nc) = Inr (nv', nvec', nc') \<Longrightarrow>
     length nv' = length nv \<and> length nc' = length nc
     \<and> (\<forall>i. j \<le> i \<and> int i < m_nev s \<longrightarrow>
            i < length nc \<and> nc' ! i = m_ritz_conv s ! nat (ind ! i))
     \<and> (\<forall>i < j. nc' ! i = nc ! i)"
proof (induction "nat (m_nev s - int j)" arbitrary: j nv nvec nc)
  case 0
  then have nj: "\<not> int j < m_nev s" by simp
  then have none: "\<not> (j \<le> i \<and> int i < m_nev s)" for i by linarith
  from "0.prems" nj have "nv' = nv" "nc' = nc" by (simp_all add: sort_copy_done)
  with none show ?case by blast
next
  case (Suc d)
  then have lt: "int j < m_nev s" by simp
  have d: "d = nat (m_nev s - int (Suc j))" using Suc.hyps(2) by simp
  from Suc.prems lt obtain r where
    body: "bindE (coeff ind (int j)) (\<lambda>k.
                bindE (coeff (m_ritz_val s) k) (\<lambda>x.
                bindE (set_coeff nv (int j) x) (\<lambda>new_val'.
                bindE (coeff (m_ritz_vec s) k) (\<lambda>c.
                bindE (set_coeff nvec (int j) c) (\<lambda>new_vec'.
                bindE (coeff (m_ritz_conv s) k) (\<lambda>b.
                bindE (set_coeff nc (int j) b) (\<lambda>new_conv'.
                  Inr (new_val', new_vec', new_conv')))))))) = Inr r"
    and rec: "sort_copy s ind (int j + 1) r = Inr (nv', nvec', nc')"
    by (subst (asm) sort_copy.simps) (auto split: sum.splits)
  from body obtain nv1 nvec1 where
    r: "r = (nv1, nvec1, nc[j := m_ritz_conv s ! nat (ind ! j)])"
    and l: "length nv1 = length nv" "j < length nc"
    by (auto simp add: bindE_Inr coeff_Inr set_coeff_Inr)
  have rec': "sort_copy s ind (int (Suc j)) (nv1, nvec1, nc[j := m_ritz_conv s ! nat (ind ! j)])
      = Inr (nv', nvec', nc')"
    using rec by (simp add: r add.commute)
  note ih = Suc.hyps(1)[OF d rec']
  show ?case
  proof (intro conjI allI impI)
    show "length nv' = length nv" using ih l by simp
    show "length nc' = length nc" using ih by simp
  next
    fix i assume a: "j \<le> i \<and> int i < m_nev s"
    show "i < length nc"
    proof (cases "i = j")
      case True with l show ?thesis by simp
    next
      case False
      with a have "Suc j \<le> i \<and> int i < m_nev s" by simp
      with ih show ?thesis by simp
    qed
    show "nc' ! i = m_ritz_conv s ! nat (ind ! i)"
    proof (cases "i = j")
      case True
      from ih have "nc' ! j = nc[j := m_ritz_conv s ! nat (ind ! j)] ! j" by simp
      with True l show ?thesis by simp
    next
      case False
      with a have "Suc j \<le> i \<and> int i < m_nev s" by simp
      with ih show ?thesis by simp
    qed
  next
    fix i assume "i < j"
    with ih have "nc' ! i = nc[j := m_ritz_conv s ! nat (ind ! j)] ! i" by simp
    with \<open>i < j\<close> show "nc' ! i = nc ! i" by simp
  qed
qed

lemma count_true_mset: "count_true bs = int (size (filter_mset (\<lambda>b. b) (mset bs)))"
  by (simp add: count_true_def flip: mset_filter)

lemma sort_ritzpair_flags:
  assumes "sort_ritzpair E sort_rule s = Inr s'"
    and "0 \<le> m_nev s"
  shows "length (m_ritz_conv s') = nat (m_nev s) \<and> length (m_ritz_val s') = nat (m_ncv s)
     \<and> (length (m_ritz_conv s) = nat (m_nev s)
          \<and> mset (sort_index E sort_rule (m_ritz_val s) (m_nev s)) = mset (map int [0..<nat (m_nev s)])
        \<longrightarrow> count_true (m_ritz_conv s') = count_true (m_ritz_conv s))"
proof -
  define ind where "ind = sort_index E sort_rule (m_ritz_val s) (m_nev s)"
  define n where "n = nat (m_nev s)"
  from assms(1) obtain nv' nvec' nc' where
    c: "sort_copy s ind (int 0) (replicate (nat (m_ncv s)) (junk E),
           replicate n (replicate (nat (m_ncv s)) (junk E)), replicate n (junk_flag E))
          = Inr (nv', nvec', nc')"
    and s': "s' = s\<lparr> m_ritz_val := nv', m_ritz_vec := nvec', m_ritz_conv := nc' \<rparr>"
    by (auto simp add: sort_ritzpair_def Let_def bindE_Inr ind_def n_def)
  note r = sort_copy_result[OF c]
  have len: "length nc' = n" "length nv' = nat (m_ncv s)" using r by simp_all
  have nth: "nc' ! i = m_ritz_conv s ! nat (ind ! i)" if "i < n" for i
    using r that assms(2) by (simp add: n_def)
  have cnt: "count_true nc' = count_true (m_ritz_conv s)"
    if lc: "length (m_ritz_conv s) = n" and perm: "mset ind = mset (map int [0..<n])"
  proof -
    have li: "length ind = n" using perm by (metis length_map length_upt mset_eq_length diff_zero)
    have "nc' = map (\<lambda>k. m_ritz_conv s ! nat k) ind"
      using len li nth by (intro nth_equalityI) simp_all
    then have "mset nc' = image_mset (\<lambda>k. m_ritz_conv s ! nat k) (mset ind)" by simp
    also have "\<dots> = mset (map (\<lambda>i. m_ritz_conv s ! i) [0..<n])"
      by (simp add: perm multiset.map_comp comp_def)
    also have "\<dots> = mset (m_ritz_conv s)"
      using lc map_nth[of "m_ritz_conv s"] by simp
    finally show ?thesis by (simp add: count_true_mset)
  qed
  show ?thesis
    using len cnt by (simp add: s' n_def[symmetric] ind_def[symmetric])
qed

lemma count_true_drop:
  "i < length bs \<Longrightarrow>
     count_true (drop i bs) = (if bs ! i then 1 else 0) + count_true (drop (Suc i) bs)"
  by (simp add: count_true_def Cons_nth_drop_Suc[symmetric])

lemma eigenvalues_loop_length:
  assumes "length (m_ritz_conv s) = nat (m_nev s)" and "m_nev s \<le> int (length (m_ritz_val s))"
    and "int j + count_true (drop i (m_ritz_conv s)) \<le> int (length res)"
  shows "\<exists>res'. eigenvalues_loop s (int i) (int j) res = Inr res' \<and> length res' = length res"
  using assms
proof (induction "nat (m_nev s) - i" arbitrary: i j res)
  case 0
  then have "\<not> int i < m_nev s" by simp
  then show ?case by (subst eigenvalues_loop.simps) simp
next
  case (Suc d)
  then have lt: "int i < m_nev s" and li: "i < length (m_ritz_conv s)"
    and lv: "i < length (m_ritz_val s)" by simp_all
  have d: "d = nat (m_nev s) - Suc i" using Suc.hyps(2) by simp
  note cd = count_true_drop[OF li]
  have nonneg: "0 \<le> count_true (drop (Suc i) (m_ritz_conv s))" by (simp add: count_true_def)
  show ?case
  proof (cases "m_ritz_conv s ! i")
    case True
    with Suc.prems(3) cd nonneg have jl: "j < length res"
      and inv: "int (Suc j) + count_true (drop (Suc i) (m_ritz_conv s))
                 \<le> int (length (res[j := m_ritz_val s ! i]))"
      by simp_all
    have step: "eigenvalues_loop s (int i) (int j) res
        = eigenvalues_loop s (int (Suc i)) (int (Suc j)) (res[j := m_ritz_val s ! i])"
      using lt li lv True jl
      by (subst eigenvalues_loop.simps) (simp add: coeff_def set_coeff_def bindE_def add.commute)
    from Suc.hyps(1)[OF d Suc.prems(1,2) inv] show ?thesis by (simp add: step)
  next
    case False
    with Suc.prems(3) cd have
      inv: "int j + count_true (drop (Suc i) (m_ritz_conv s)) \<le> int (length res)"
      by simp
    have step: "eigenvalues_loop s (int i) (int j) res
        = eigenvalues_loop s (int (Suc i)) (int j) res"
      using lt li False
      by (subst eigenvalues_loop.simps) (simp add: coeff_def add.commute)
    from Suc.hyps(1)[OF d Suc.prems(1,2) inv] show ?thesis by (simp add: step)
  qed
qed

lemma eigenvalues_length:
  assumes "length (m_ritz_conv s) = nat (m_nev s)" and "m_nev s \<le> int (length (m_ritz_val s))"
  shows "\<exists>vals. eigenvalues E s = Inr vals \<and> int (length vals) = count_true (m_ritz_conv s)"
proof -
  have nn: "0 \<le> count_true (m_ritz_conv s)" by (simp add: count_true_def)
  have "int 0 + count_true (drop 0 (m_ritz_conv s))
      \<le> int (length (replicate (nat (count_true (m_ritz_conv s))) (junk E)))"
    using nn by simp
  from eigenvalues_loop_length[OF assms this] nn show ?thesis
    by (auto simp add: eigenvalues_def Let_def)
qed

text \<open>Evaluation of the solver of dimension three.\<close>

lemma solver3_init:
  "bindE (GenEigsBase_ctor 3 (\<lambda>k. ()) 1 3) (init_random Env0) = Inr solver3"
  by (simp add: GenEigsBase_ctor_def init_random_def init_def Env0_def bindE_def Let_def solver3_def
      numeral_3_eq_3)

lemma replicate3: "replicate 3 x = [x, x, x]"
  by (simp add: numeral_3_eq_3)

lemmas eval_defs = replicate3 Env0_def solver3_def bindE_def Let_def coeff_def set_coeff_def mcoeff_def
  head_def count_true_def is_complex_def is_conj_def cdiv_def upt_rec

lemmas solver_defs = compute_def restart_loop.simps num_converged_def nev_adjusted_def
  near_zero_loop.simps restart_def run_real_def run_real_loop.simps retrieve_ritzpair_def
  copy_val_est.simps copy_vec.simps sort_ritzpair_def sort_copy.simps eps23_example

lemma loop3:
  "restart_loop Env0 LargestMagn (1 / 10) 1 0 0 (solver3_ritz\<lparr> m_nmatop := 2 \<rparr>)
     = Inr (1, 0, solver3_ritz\<lparr> m_nmatop := 4 \<rparr>)"
  by (simp add: solver3_ritz_def solver_defs eval_defs)

lemma compute3:
  "compute Env0 LargestMagn 1 (1 / 10) LargestMagn solver3
     = Inr (0, solver3\<lparr> m_nmatop := 4, m_niter := 2, m_ritz_val := [3, 0, 0],
                        m_ritz_vec := [[1, 0, 1]], m_ritz_est := [1, 1, 1],
                        m_ritz_conv := [False], m_info := NotConverging \<rparr>)"
  by (simp add: solver_defs eval_defs)

lemma stage1: "factorize_from Env0 1 (m_ncv solver3) (m_fac solver3) (m_nmatop solver3) = Inr ((), 2)"
  by (simp add: eval_defs)

lemma stage2: "retrieve_ritzpair Env0 LargestMagn (solver3\<lparr> m_fac := (), m_nmatop := 2 \<rparr>)
    = Inr (solver3_ritz\<lparr> m_nmatop := 2 \<rparr>)"
  by (simp add: solver3_ritz_def retrieve_ritzpair_def copy_val_est.simps copy_vec.simps eval_defs)

lemma stage4: "sort_ritzpair Env0 LargestMagn (solver3_ritz\<lparr> m_nmatop := 4 \<rparr>) = Inr solver3_sorted"
  by (simp add: solver3_sorted_def solver3_ritz_def sort_ritzpair_def sort_copy.simps eval_defs)

lemma loop3_success:
  "restart_loop Env0 LargestMagn 1 1 0 0 (solver3_ritz\<lparr> m_nmatop := 2 \<rparr>)
     = Inr (0, 1, solver3_ritz\<lparr> m_nmatop := 2, m_ritz_conv := [True] \<rparr>)"
  by (simp add: solver3_ritz_def solver_defs eval_defs)

lemma stage4_success:
  "sort_ritzpair Env0 LargestMagn (solver3_ritz\<lparr> m_nmatop := 2, m_ritz_conv := [True] \<rparr>)
     = Inr (solver3_ritz\<lparr> m_nmatop := 2, m_ritz_val := [3, 0, 0], m_ritz_conv := [True] \<rparr>)"
  by (simp add: solver3_ritz_def sort_ritzpair_def sort_copy.simps eval_defs)

text \<open>
  The loop and \<^verbatim>\<open>compute\<close> throw nothing of their own: an exception that leaves
  \<^verbatim>\<open>compute\<close> is an exception of one of the functions that it calls.
\<close>

lemma bindE_Inl: "(bindE m f = Inl e) = (m = Inl e \<or> (\<exists>x. m = Inr x \<and> f x = Inl e))"
  by (cases m) (simp_all add: bindE_def)

lemma restart_loop_raises_nothing:
  "restart_loop E selection tol maxit i nconv0 s = Inl e \<Longrightarrow>
     (\<exists>t. num_converged E tol t = Inl e)
     \<or> (\<exists>t c. nev_adjusted E t c = Inl e)
     \<or> (\<exists>t k. restart E k selection t = Inl e)"
proof (induction E selection tol maxit i nconv0 s rule: restart_loop.induct)
  case (1 E selection tol maxit i nconv0 s)
  show ?case
  proof (cases "i < maxit")
    case False
    with "1.prems" show ?thesis by (simp add: restart_loop_done)
  next
    case True
    show ?thesis
    proof (cases "num_converged E tol s")
      case (Inl e')
      with "1.prems" True have "e' = e" by (simp add: restart_loop_step)
      with Inl show ?thesis by blast
    next
      case (Inr r)
      obtain c sc where r: "r = (c, sc)" by (cases r)
      have nc: "num_converged E tol s = Inr (c, sc)" using Inr r by simp
      show ?thesis
      proof (cases "m_nev sc \<le> c")
        case True
        with "1.prems" \<open>i < maxit\<close> nc show ?thesis by (simp add: restart_loop_step)
      next
        case notconv: False
        show ?thesis
        proof (cases "bindE (nev_adjusted E sc c) (\<lambda>nev_adj. restart E nev_adj selection sc)")
          case (Inl e')
          with "1.prems" True nc notconv have "e' = e" by (simp add: restart_loop_step)
          with Inl show ?thesis unfolding bindE_Inl by blast
        next
          case (Inr s2)
          with "1.prems" True nc notconv have
            rec: "restart_loop E selection tol maxit (i + 1) c s2 = Inl e"
            by (simp add: restart_loop_step)
          from "1.IH"[OF True nc refl notconv Inr rec] show ?thesis .
        qed
      qed
    qed
  qed
qed

lemma compute_raises_nothing:
  "compute E selection maxit tol sorting s = Inl e \<Longrightarrow>
     (\<exists>a b fac n. factorize_from E a b fac n = Inl e)
     \<or> (\<exists>t. retrieve_ritzpair E selection t = Inl e)
     \<or> (\<exists>t. num_converged E tol t = Inl e)
     \<or> (\<exists>t c. nev_adjusted E t c = Inl e)
     \<or> (\<exists>t k. restart E k selection t = Inl e)
     \<or> (\<exists>t. sort_ritzpair E sorting t = Inl e)"
  by (auto simp add: compute_def bindE_Inl dest!: restart_loop_raises_nothing)

text \<open>
  The returned number and the status. Whenever the calls that \<^verbatim>\<open>compute\<close> makes return
  (the factorisation, the retrieval of the Ritz pairs, the restarting loop with the
  final values \<open>i\<close> and \<open>nconv\<close>, the final sorting), \<^verbatim>\<open>compute\<close> returns
  \<open>min(nev, nconv)\<close>, and it sets the status to "successful" exactly when
  \<open>nconv \<ge> nev\<close> and to "not converging" exactly when \<open>nconv < nev\<close>. For \<open>maxit > 0\<close>
  the number \<open>nconv\<close> is what the last convergence test has returned, the count of the
  flags that it has stored; for \<open>maxit \<le> 0\<close> no test has run and \<open>nconv\<close> is zero. When
  the final sorting permutes the positions, the accessor \<^verbatim>\<open>eigenvalues()\<close> of the
  resulting solver returns as many values as \<^verbatim>\<open>compute\<close> has returned. Which values
  these are is another matter: see the evaluation of the solver of dimension four
  below.
\<close>

theorem compute_outcome:
  assumes fz: "factorize_from E 1 (m_ncv s) (m_fac s) (m_nmatop s) = Inr (fac, nmatop)"
    and rt: "retrieve_ritzpair E selection (s\<lparr> m_fac := fac, m_nmatop := nmatop \<rparr>) = Inr s1"
    and lp: "restart_loop E selection tol maxit 0 0 s1 = Inr (i, nconv, s2)"
    and st: "sort_ritzpair E sorting s2 = Inr s3"
  shows "\<exists>s'. compute E selection maxit tol sorting s = Inr (min (m_nev s) nconv, s')
      \<and> (info s' = Successful) = (nconv \<ge> m_nev s)
      \<and> (info s' = NotConverging) = (nconv < m_nev s)
      \<and> (0 < maxit \<longrightarrow>
            (\<exists>t. num_converged E tol t = Inr (nconv, t\<lparr> m_ritz_conv := m_ritz_conv s2 \<rparr>))
            \<and> nconv = count_true (m_ritz_conv s2))
      \<and> (maxit \<le> 0 \<longrightarrow> nconv = 0)
      \<and> (0 < maxit \<and> m_nev s \<le> m_ncv s
           \<and> mset (sort_index E sorting (m_ritz_val s2) (m_nev s2))
               = mset (map int [0..<nat (m_nev s2)]) \<longrightarrow>
            (\<exists>vals. eigenvalues E s' = Inr vals \<and> int (length vals) = min (m_nev s) nconv))"
proof -
  define s' where "s' = s3\<lparr> m_niter := m_niter s3 + (i + 1),
      m_info := (if nconv \<ge> m_nev s3 then Successful else NotConverging) \<rparr>"
  note k1 = retrieve_ritzpair_keeps[OF rt]
  note lo = restart_loop_outcome[OF lp]
  note k3 = sort_ritzpair_keeps[OF st]
  have nev: "m_nev s1 = m_nev s" "m_nev s2 = m_nev s" "m_nev s3 = m_nev s"
    and ncv: "m_ncv s3 = m_ncv s2"
    using k1 lo k3 by simp_all
  have run: "compute E selection maxit tol sorting s = Inr (min (m_nev s) nconv, s')"
    by (simp add: compute_def bindE_def fz rt lp st s'_def nev)
  have inf: "(info s' = Successful) = (nconv \<ge> m_nev s)"
    "(info s' = NotConverging) = (nconv < m_nev s)"
    by (auto simp add: info_def s'_def nev)
  have test: "(\<exists>t. num_converged E tol t = Inr (nconv, t\<lparr> m_ritz_conv := m_ritz_conv s2 \<rparr>))
            \<and> nconv = count_true (m_ritz_conv s2)" if "0 < maxit"
    using lo that by auto
  have none: "nconv = 0" if "maxit \<le> 0"
    using lo that by simp
  have acc: "\<exists>vals. eigenvalues E s' = Inr vals \<and> int (length vals) = min (m_nev s) nconv"
    if m: "0 < maxit" and le: "m_nev s \<le> m_ncv s"
      and perm: "mset (sort_index E sorting (m_ritz_val s2) (m_nev s2))
               = mset (map int [0..<nat (m_nev s2)])"
  proof -
    from lo m have l2: "length (m_ritz_conv s2) = nat (m_nev s2)"
      and c2: "nconv = count_true (m_ritz_conv s2)"
      by (simp_all add: nev)
    from lo m obtain t where "num_converged E tol t = Inr (nconv, t\<lparr> m_ritz_conv := m_ritz_conv s2 \<rparr>)"
      and "m_nev t = m_nev s1" by auto
    with num_converged_keeps[of E tol t nconv] have nn: "0 \<le> m_nev s2" by (auto simp add: nev)
    from sort_ritzpair_flags[OF st nn] l2 perm have
      f: "length (m_ritz_conv s3) = nat (m_nev s2)" "length (m_ritz_val s3) = nat (m_ncv s2)"
         "count_true (m_ritz_conv s3) = count_true (m_ritz_conv s2)"
      by simp_all
    have ncv2: "m_ncv s2 = m_ncv s"
      using k1 lo by simp
    have a1: "length (m_ritz_conv s') = nat (m_nev s')"
      by (simp add: s'_def f nev)
    have a2: "m_nev s' \<le> int (length (m_ritz_val s'))"
      using le nn by (simp add: s'_def f nev ncv2)
    from eigenvalues_length[OF a1 a2, of E] obtain vals where
      v: "eigenvalues E s' = Inr vals" "int (length vals) = count_true (m_ritz_conv s')"
      by blast
    have "count_true (m_ritz_conv s') = nconv" by (simp add: s'_def f c2)
    moreover have "nconv \<le> m_nev s"
      using l2 nn length_filter_le[of "\<lambda>b. b" "m_ritz_conv s2"] by (simp add: c2 count_true_def nev)
    ultimately show ?thesis using v by auto
  qed
  show ?thesis
    using run inf test none acc by (intro exI[of _ s']) blast
qed

theorem compute_outcome_witness:
  "factorize_from Env0 1 (m_ncv solver3) (m_fac solver3) (m_nmatop solver3) = Inr ((), 2)
   \<and> retrieve_ritzpair Env0 LargestMagn (solver3\<lparr> m_fac := (), m_nmatop := 2 \<rparr>)
       = Inr (solver3_ritz\<lparr> m_nmatop := 2 \<rparr>)
   \<and> restart_loop Env0 LargestMagn (1 / 10) 1 0 0 (solver3_ritz\<lparr> m_nmatop := 2 \<rparr>)
       = Inr (1, 0, solver3_ritz\<lparr> m_nmatop := 4 \<rparr>)
   \<and> sort_ritzpair Env0 LargestMagn (solver3_ritz\<lparr> m_nmatop := 4 \<rparr>) = Inr solver3_sorted
   \<and> (\<exists>s'. compute Env0 LargestMagn 1 (1 / 10) LargestMagn solver3 = Inr (0, s')
          \<and> info s' = NotConverging \<and> eigenvalues Env0 s' = Inr [])
   \<and> restart_loop Env0 LargestMagn 1 1 0 0 (solver3_ritz\<lparr> m_nmatop := 2 \<rparr>)
       = Inr (0, 1, solver3_ritz\<lparr> m_nmatop := 2, m_ritz_conv := [True] \<rparr>)
   \<and> (\<exists>s' v. compute Env0 LargestMagn 1 1 LargestMagn solver3 = Inr (1, s')
          \<and> info s' = Successful \<and> eigenvalues Env0 s' = Inr [v])"
proof -
  have perm: "mset (sort_index Env0 LargestMagn v 1) = mset (map int [0..<nat 1])" for v
    by (simp add: Env0_def)
  have nev: "m_nev solver3 = 1" "m_ncv solver3 = 3"
    "m_nev (solver3_ritz\<lparr> m_nmatop := 4 \<rparr>) = 1"
    "m_nev (solver3_ritz\<lparr> m_nmatop := 2, m_ritz_conv := [True] \<rparr>) = 1"
    by (simp_all add: solver3_def solver3_ritz_def)
  from compute_outcome[OF stage1 stage2 loop3 stage4] obtain s' where
    a: "compute Env0 LargestMagn 1 (1 / 10) LargestMagn solver3 = Inr (min (m_nev solver3) 0, s')"
       "(info s' = NotConverging) = (0 < m_nev solver3)"
       "\<exists>vals. eigenvalues Env0 s' = Inr vals \<and> int (length vals) = min (m_nev solver3) 0"
    using perm by (auto simp add: nev)
  from compute_outcome[OF stage1 stage2 loop3_success stage4_success] obtain t' where
    b: "compute Env0 LargestMagn 1 1 LargestMagn solver3 = Inr (min (m_nev solver3) 1, t')"
       "(info t' = Successful) = (1 \<ge> m_nev solver3)"
       "\<exists>vals. eigenvalues Env0 t' = Inr vals \<and> int (length vals) = min (m_nev solver3) 1"
    using perm by (auto simp add: nev)
  from a(3) have a3: "eigenvalues Env0 s' = Inr []" by (auto simp add: nev)
  from b(3) obtain vals where "eigenvalues Env0 t' = Inr vals" "length vals = 1"
    by (auto simp add: nev)
  then have b3: "\<exists>v. eigenvalues Env0 t' = Inr [v]"
    by (cases vals) auto
  show ?thesis
    using stage1 stage2 loop3 stage4 loop3_success a(1,2) a3 b(1,2) b3 by (simp add: nev)
qed

text \<open>The counter of the iterations after \<^verbatim>\<open>compute\<close>.\<close>

lemma compute_iteration_count:
  assumes fz: "factorize_from E 1 (m_ncv s) (m_fac s) (m_nmatop s) = Inr (fac, nmatop)"
    and rt: "retrieve_ritzpair E selection (s\<lparr> m_fac := fac, m_nmatop := nmatop \<rparr>) = Inr s1"
    and lp: "restart_loop E selection tol maxit 0 0 s1 = Inr (i, nconv, s2)"
    and st: "sort_ritzpair E sorting s2 = Inr s3"
  shows "\<exists>r s'. compute E selection maxit tol sorting s = Inr (r, s')
      \<and> num_iterations s' = m_niter s + (i + 1)
      \<and> (0 < maxit \<longrightarrow> i \<le> maxit)
      \<and> (0 < maxit \<and> nconv < m_nev s \<longrightarrow> i = maxit \<and> num_iterations s' = m_niter s + maxit + 1)"
proof -
  note k1 = retrieve_ritzpair_keeps[OF rt]
  note lo = restart_loop_outcome[OF lp]
  note k3 = sort_ritzpair_keeps[OF st]
  have "compute E selection maxit tol sorting s
      = Inr (min (m_nev s3) nconv, s3\<lparr> m_niter := m_niter s3 + (i + 1),
           m_info := (if nconv \<ge> m_nev s3 then Successful else NotConverging) \<rparr>)"
    by (simp add: compute_def bindE_def fz rt lp st)
  moreover have "m_niter s3 = m_niter s" "m_nev s1 = m_nev s" using k1 lo k3 by simp_all
  ultimately show ?thesis using lo by (auto simp add: num_iterations_def)
qed

text \<open>
  Claim C8 says that the counter reported by \<^verbatim>\<open>num_iterations()\<close> does not exceed
  \<open>maxit\<close>. The solver of dimension three, constructed and initialised, computes with
  \<open>maxit = 1\<close> and a tolerance that is not met: the loop performs one iteration (one
  convergence test and one restart) and ends with \<open>i = 1\<close>; the status is "not
  converging", and the counter is \<open>i + 1 = 2\<close>.
\<close>

theorem num_iterations_exceeds_maxit:
  "bindE (GenEigsBase_ctor 3 (\<lambda>k. ()) 1 3) (init_random Env0) = Inr solver3
   \<and> restart_loop Env0 LargestMagn (1 / 10) 1 0 0 (solver3_ritz\<lparr> m_nmatop := 2 \<rparr>)
       = Inr (1, 0, solver3_ritz\<lparr> m_nmatop := 4 \<rparr>)
   \<and> (\<exists>s'. compute Env0 LargestMagn 1 (1 / 10) LargestMagn solver3 = Inr (0, s')
          \<and> info s' = NotConverging \<and> num_iterations s' = 2)"
  using solver3_init loop3 compute3 by (simp add: info_def num_iterations_def)

section \<open>Evaluation of the solvers of dimension four\<close>

lemma replicate4: "replicate 4 x = [x, x, x, x]"
  by (simp add: numeral_eq_Suc)

lemma replicate2: "replicate 2 x = [x, x]"
  by (simp add: numeral_eq_Suc)

subsection \<open>The result after the last restart\<close>

lemmas eval4_defs = replicate4 replicate2 Env1_def solver4_def bindE_def Let_def coeff_def
  set_coeff_def mcoeff_def head_def count_true_def is_complex_def is_conj_def cdiv_def upt_rec

lemma solver4_init:
  "bindE (GenEigsBase_ctor 4 (\<lambda>k. 0) 2 4) (init_random Env1) = Inr solver4"
  by (simp add: GenEigsBase_ctor_def init_random_def init_def eval4_defs)

lemma solver4_retrieve:
  "bindE (factorize_from Env1 1 (m_ncv solver4) (m_fac solver4) (m_nmatop solver4))
     (\<lambda>(fac, nmatop).
        retrieve_ritzpair Env1 LargestMagn (solver4\<lparr> m_fac := fac, m_nmatop := nmatop \<rparr>))
   = Inr solver4_first"
  by (simp add: solver4_first_def retrieve_ritzpair_def copy_val_est.simps copy_vec.simps
      eval4_defs)

lemma solver4_test:
  "num_converged Env1 (1 / 10) solver4_first
     = Inr (1, solver4_first\<lparr> m_ritz_conv := [True, False] \<rparr>)"
  by (simp add: solver4_first_def num_converged_def eps23_example eval4_defs)

lemma solver4_compute:
  "compute Env1 LargestMagn 1 (1 / 10) LargestMagn solver4 = Inr (1, solver4_final)"
  by (simp add: solver4_final_def solver_defs eval4_defs)

lemma solver4_eigenvalues: "eigenvalues Env1 solver4_final = Inr [9]"
  by (simp add: solver4_final_def eigenvalues_def eigenvalues_loop.simps eval4_defs)

lemma solver4_eigenvectors: "eigenvectors_all Env1 solver4_final = Inr [[1, 0, 0, 1]]"
  by (simp add: solver4_final_def eigenvectors_all_def eigenvectors_def eigenvectors_loop.simps
      eval4_defs)

lemma solver4_test_again:
  "num_converged Env1 (1 / 10) solver4_final
     = Inr (1, solver4_final\<lparr> m_ritz_conv := [False, True] \<rparr>)"
  by (simp add: solver4_final_def num_converged_def eps23_example eval4_defs)

text \<open>
  Claim C4 says that \<^verbatim>\<open>compute\<close> returns \<open>min(nev, nconv)\<close> for the count \<open>nconv\<close> of the
  last convergence test, that the status is "successful" exactly when \<open>nconv \<ge> nev\<close>,
  and that after \<open>maxit\<close> iterations without convergence no exception is raised and the
  converged subset remains retrievable through the accessors. The solver of dimension
  four for two eigenvalues, constructed and initialised, computes with \<open>maxit = 1\<close> and
  the tolerance \<open>1/10\<close>. Its only convergence test sees the Ritz values \<open>8\<close> and \<open>5\<close> and
  marks the first position, for the value \<open>8\<close>. The restart that follows replaces the
  Ritz pairs: the values are now \<open>9\<close> and \<open>8\<close>, and the loop ends without another test.
  \<^verbatim>\<open>compute\<close> returns \<open>1\<close> with the status "not converging" and raises nothing, but the
  flags still are those of the test before the restart: \<^verbatim>\<open>eigenvalues()\<close> returns the
  value \<open>9\<close> and \<^verbatim>\<open>eigenvectors()\<close> its vector, which have never been tested and do not
  pass the test; the value \<open>8\<close>, which passes it, is not returned.
\<close>

theorem compute_returns_untested_pair:
  "bindE (GenEigsBase_ctor 4 (\<lambda>k. 0) 2 4) (init_random Env1) = Inr solver4
   \<and> bindE (factorize_from Env1 1 (m_ncv solver4) (m_fac solver4) (m_nmatop solver4))
       (\<lambda>(fac, nmatop).
          retrieve_ritzpair Env1 LargestMagn (solver4\<lparr> m_fac := fac, m_nmatop := nmatop \<rparr>))
       = Inr solver4_first
   \<and> num_converged Env1 (1 / 10) solver4_first
       = Inr (1, solver4_first\<lparr> m_ritz_conv := [True, False] \<rparr>)
   \<and> compute Env1 LargestMagn 1 (1 / 10) LargestMagn solver4 = Inr (1, solver4_final)
   \<and> info solver4_final = NotConverging
   \<and> m_ritz_val solver4_final = [9, 8, 0, 0]
   \<and> m_ritz_conv solver4_final = [True, False]
   \<and> eigenvalues Env1 solver4_final = Inr [9]
   \<and> eigenvectors_all Env1 solver4_final = Inr [[1, 0, 0, 1]]
   \<and> num_converged Env1 (1 / 10) solver4_final
       = Inr (1, solver4_final\<lparr> m_ritz_conv := [False, True] \<rparr>)"
  using solver4_init solver4_retrieve solver4_test solver4_compute solver4_eigenvalues
    solver4_eigenvectors solver4_test_again
  by (simp add: info_def solver4_final_def)

subsection \<open>The restart at the last Ritz value\<close>

lemma cmod34: "cmod (Complex 3 4) = 5" "cmod (Complex 4 3) = 5"
  by (simp_all add: cmod_def real_sqrt_unique)

lemma pairs_init:
  "bindE (GenEigsBase_ctor 4 (\<lambda>k. ()) 1 4) (init_random EnvPairs) = Inr pairs_solver"
  by (simp add: GenEigsBase_ctor_def init_random_def init_def EnvPairs_def Env0_def bindE_def
      Let_def pairs_solver_def replicate4)

lemma pairs_retrieve:
  "bindE (factorize_from EnvPairs 1 (m_ncv pairs_solver) (m_fac pairs_solver)
            (m_nmatop pairs_solver))
     (\<lambda>(fac, nmatop).
        retrieve_ritzpair EnvPairs LargestImag
          (pairs_solver\<lparr> m_fac := fac, m_nmatop := nmatop \<rparr>))
   = Inr pairs_ritz"
  by (simp add: pairs_ritz_def pairs_solver_def EnvPairs_def retrieve_ritzpair_def
      copy_val_est.simps copy_vec.simps eval_defs)

lemma pairs_test: "num_converged EnvPairs (1 / 10) pairs_ritz = Inr (0, pairs_ritz)"
  by (simp add: pairs_ritz_def pairs_solver_def EnvPairs_def num_converged_def eps23_example
      eval_defs cmod34)

lemma pairs_nev_adjusted: "nev_adjusted EnvPairs pairs_ritz 0 = Inr 3"
  by (simp add: pairs_ritz_def pairs_solver_def EnvPairs_def nev_adjusted_def
      near_zero_loop.simps eval_defs complex_eq_iff)

lemma pairs_schedule: "shifts_real (m_ritz_val pairs_ritz) 3 = [SingleShiftStep 3]"
  by (simp add: pairs_ritz_def pairs_solver_def shifts_real.simps complex_eq_iff numeral_3_eq_3)

lemma pairs_run:
  "run_real QRlog (m_ritz_val pairs_ritz) 3 [] () = Inl IndexOutOfRange"
  by (simp add: pairs_ritz_def pairs_solver_def run_real_def run_real_loop.simps coeff_def
      is_complex_def QRlog_def)

lemma pairs_restart: "restart EnvPairs 3 LargestImag pairs_ritz = Inl IndexOutOfRange"
  by (simp add: pairs_ritz_def pairs_solver_def EnvPairs_def restart_def run_real_def
      run_real_loop.simps eval_defs)

lemma pairs_compute:
  "compute EnvPairs LargestImag 1 (1 / 10) LargestImag pairs_solver = Inl IndexOutOfRange"
  by (simp add: pairs_solver_def EnvPairs_def solver_defs eval_defs replicate4 cmod34
      complex_eq_iff)

text \<open>
  Claim C1 says for every vector of Ritz values and every start that the restart for a
  real scalar makes a double shift step at a value that is not real and is followed by
  its conjugate, and otherwise a single shift step with the real part as the shift.
  The solver of dimension four for one eigenvalue, constructed and initialised, has
  the Ritz values \<open>3 + 4i, 4 + 3i, 4 - 3i, 3 - 4i\<close>, ordered by their imaginary parts.
  After a convergence test that marks nothing, \<^verbatim>\<open>nev_adjusted\<close> finds the pair
  \<open>4 \<plusminus> 3i\<close> at the positions \<open>1\<close> and \<open>2\<close> and returns the start \<open>k = 3\<close>. At the last
  position the value \<open>3 - 4i\<close> is not real and no value follows it; the step of the
  specification is a single shift with the shift \<open>3\<close>. The code performs no step: its
  test for a conjugate pair reads \<^verbatim>\<open>ritz_val[4]\<close>, outside of the four coefficients, in
  \<^verbatim>\<open>run\<close> and so in \<^verbatim>\<open>restart\<close> and in \<^verbatim>\<open>compute\<close>.
\<close>

theorem run_misses_single_shift:
  "bindE (GenEigsBase_ctor 4 (\<lambda>k. ()) 1 4) (init_random EnvPairs) = Inr pairs_solver
   \<and> bindE (factorize_from EnvPairs 1 (m_ncv pairs_solver) (m_fac pairs_solver)
              (m_nmatop pairs_solver))
       (\<lambda>(fac, nmatop).
          retrieve_ritzpair EnvPairs LargestImag
            (pairs_solver\<lparr> m_fac := fac, m_nmatop := nmatop \<rparr>))
       = Inr pairs_ritz
   \<and> num_converged EnvPairs (1 / 10) pairs_ritz = Inr (0, pairs_ritz)
   \<and> nev_adjusted EnvPairs pairs_ritz 0 = Inr 3
   \<and> shifts_real (m_ritz_val pairs_ritz) 3 = [SingleShiftStep 3]
   \<and> run_real QRlog (m_ritz_val pairs_ritz) 3 [] () = Inl IndexOutOfRange
   \<and> restart EnvPairs 3 LargestImag pairs_ritz = Inl IndexOutOfRange
   \<and> compute EnvPairs LargestImag 1 (1 / 10) LargestImag pairs_solver = Inl IndexOutOfRange"
  using pairs_init pairs_retrieve pairs_test pairs_nev_adjusted pairs_schedule pairs_run
    pairs_restart pairs_compute
  by simp

end
